theory Spec2Isabelle
  imports Main "HOL-Library.Word"
begin

unbundle bit_operations_syntax

chapter \<open>The model of the code\<close>

section \<open>Server context and the calls it makes on its collaborators\<close>

text \<open>
  The compositor is single threaded: every handler runs to completion on the event loop.
  A handler is modelled as a function from the server (or seat) state to the updated
  state. What a handler asks of a collaborator (libwayland, wlroots, the kernel) is
  appended to the \<open>calls\<close> of the state, in program order; what a collaborator
  answers is an argument of the handler.
\<close>

datatype error = Assertion_failed | Null_dereference

datatype gameframe_multi_output_mode =
    GAMEFRAME_MULTI_OUTPUT_MODE_EXTEND
  | GAMEFRAME_MULTI_OUTPUT_MODE_LAST

datatype wl_keyboard_key_state =
    WL_KEYBOARD_KEY_STATE_RELEASED
  | WL_KEYBOARD_KEY_STATE_PRESSED

datatype call =
    Wl_display_terminate
  | Close_fd nat
  | Pipe
  | Fork
  | Waitpid int
  | Wlr_session_change_vt "32 word"
  | Wlr_idle_notifier_v1_notify_activity
  | Wlr_idle_notifier_v1_set_inhibited bool
  | Wlr_seat_set_keyboard
  | Wlr_seat_keyboard_notify_key "32 word" "32 word" wl_keyboard_key_state
  | Wlr_output_commit_state nat bool
  | Wlr_output_layout_add_auto nat
  | Wlr_output_layout_remove nat
  | Wlr_output_manager_v1_set_configuration "nat list"
  | View_position_all
  | Wlr_output_swapchain_manager_prepare
  | Wlr_scene_output_build_state nat
  | Wlr_backend_commit
  | Wlr_output_configuration_v1_send_succeeded
  | Wlr_output_configuration_v1_send_failed

text \<open>
  \<open>struct gf_output\<close> with the part of its \<open>wlr_output\<close> the handlers read:
  \<open>wlr_output\<close> is the handle of the backend output, \<open>is_wl\<close> and \<open>is_x11\<close> are
  what \<open>wlr_output_is_wl\<close> and \<open>wlr_output_is_x11\<close> answer for it, \<open>enabled\<close> is
  \<open>wlr_output->enabled\<close>, and \<open>scene_output\<close> is \<open>None\<close> for a NULL pointer.
\<close>

record gf_output =
  wlr_output :: nat
  is_wl :: bool
  is_x11 :: bool
  enabled :: bool
  scene_output :: "nat option"

text \<open>
  libwayland's \<open>wl_list\<close>, by what its functions do with a head. A head that was
  zeroed and never passed to \<open>wl_list_init\<close> has NULL for \<open>prev\<close> and \<open>next\<close>:
  \<open>wl_list_empty\<close> compares \<open>next\<close> with the address of the head and answers
  false, and \<open>wl_list_insert\<close> ends in \<open>elm->next->prev = elm\<close>, a write through
  the NULL it has just copied from \<open>list->next\<close>. An initialised head is given by the
  elements of the list, from \<open>list->next\<close> on. An element is linked only by an insert
  that succeeded, so \<open>wl_list_remove\<close> meets the zeroed head in no run.
\<close>

datatype 'a wl_list = Wl_list_zeroed | Wl_list "'a list"

definition wl_list_init :: "'a wl_list" where
  "wl_list_init = Wl_list []"

definition wl_list_insert :: "'a wl_list \<Rightarrow> 'a \<Rightarrow> error + 'a wl_list" where
  "wl_list_insert list elm =
     (case list of
        Wl_list_zeroed \<Rightarrow> Inl Null_dereference
      | Wl_list xs \<Rightarrow> Inr (Wl_list (elm # xs)))"

definition wl_list_empty :: "'a wl_list \<Rightarrow> bool" where
  "wl_list_empty list =
     (case list of
        Wl_list_zeroed \<Rightarrow> False
      | Wl_list xs \<Rightarrow> xs = [])"

definition wl_list_remove :: "'a \<Rightarrow> 'a wl_list \<Rightarrow> 'a wl_list" where
  "wl_list_remove elm list =
     (case list of
        Wl_list_zeroed \<Rightarrow> Wl_list_zeroed
      | Wl_list xs \<Rightarrow> Wl_list (remove1 elm xs))"

definition wl_list_elements :: "'a wl_list \<Rightarrow> 'a list" where
  "wl_list_elements list =
     (case list of
        Wl_list_zeroed \<Rightarrow> []
      | Wl_list xs \<Rightarrow> xs)"

text \<open>
  \<open>struct gf_server\<close>, the fields the modelled handlers use. \<open>outputs\<close> is a
  \<open>wl_list\<close> that \<open>main\<close> initialises before any handler can run; it is the list
  of its elements, whose head is the element \<open>wl_list_insert\<close> put in last
  (\<open>list->next\<close>). \<open>inhibitors\<close> is a \<open>wl_list\<close> that \<open>main\<close> leaves as
  the initialiser of \<open>server\<close> zeroed it, so its head is modelled as above.
  Three fields stand for state that lives in a collaborator: \<open>display_run\<close> is the
  \<open>run\<close> flag of the \<open>wl_display\<close> (cleared by \<open>wl_display_terminate\<close>),
  \<open>output_layout\<close> lists the outputs in the \<open>wlr_output_layout\<close>, and
  \<open>backend_is_multi\<close> is what \<open>wlr_backend_is_multi(server->backend)\<close> answers.
\<close>

record gf_server =
  terminated :: bool
  display_run :: bool
  return_app_code :: bool
  allow_vt_switch :: bool
  output_mode :: gameframe_multi_output_mode
  backend_is_multi :: bool
  session :: "nat option"
  outputs :: "gf_output list"
  output_layout :: "nat list"
  inhibitors :: "nat wl_list"
  calls :: "call list"

definition do_call :: "call \<Rightarrow> gf_server \<Rightarrow> gf_server" where
  "do_call c server = server\<lparr>calls := calls server @ [c]\<rparr>"

text \<open>
  \<open>server_terminate\<close>: nothing once the display has been destroyed, else
  \<open>wl_display_terminate\<close>, which clears the display's run flag.
\<close>

definition server_terminate :: "gf_server \<Rightarrow> gf_server" where
  "server_terminate server =
     (if terminated server then server
      else (do_call Wl_display_terminate server)\<lparr>display_run := False\<rparr>)"

definition handle_display_destroy :: "gf_server \<Rightarrow> gf_server" where
  "handle_display_destroy server = server\<lparr>terminated := True\<rparr>"

section \<open>Process supervisor\<close>

text \<open>
  \<open>sigchld_handler\<close>: the handler of the liveness pipe. It closes the read end, logs
  according to the mask, records that the client's exit code is wanted and asks for
  termination. The mask only selects the log line.
\<close>

definition sigchld_handler :: "nat \<Rightarrow> 32 word \<Rightarrow> gf_server \<Rightarrow> gf_server" where
  "sigchld_handler fd event_mask server =
     server_terminate ((do_call (Close_fd fd) server)\<lparr>return_app_code := True\<rparr>)"

definition SIGINT :: int where "SIGINT = 2"
definition SIGTERM :: int where "SIGTERM = 15"

definition handle_signal :: "int \<Rightarrow> gf_server \<Rightarrow> gf_server" where
  "handle_signal signal server =
     (if signal = SIGINT \<or> signal = SIGTERM then server_terminate server else server)"

text \<open>
  The macros of \<open>sys/wait.h\<close> on the \<open>int\<close> that \<open>waitpid\<close> stores, as glibc
  defines them: \<open>WTERMSIG(s)\<close> is \<open>s & 0x7f\<close>, \<open>WEXITSTATUS(s)\<close> is
  \<open>(s & 0xff00) >> 8\<close>, \<open>WIFEXITED(s)\<close> is \<open>WTERMSIG(s) == 0\<close> and
  \<open>WIFSIGNALED(s)\<close> is \<open>((signed char) ((s & 0x7f) + 1) >> 1) > 0\<close>.
  \<open>W_EXITCODE ret sig\<close> is the status the kernel reports for a child that exited
  with \<open>ret\<close>, or was killed by the signal \<open>sig\<close>.
\<close>

definition WTERMSIG :: "int \<Rightarrow> int" where
  "WTERMSIG status = status AND 0x7f"

definition WEXITSTATUS :: "int \<Rightarrow> int" where
  "WEXITSTATUS status = drop_bit 8 (status AND 0xff00)"

definition WIFEXITED :: "int \<Rightarrow> bool" where
  "WIFEXITED status = (WTERMSIG status = 0)"

definition WIFSIGNALED :: "int \<Rightarrow> bool" where
  "WIFSIGNALED status = (0 < drop_bit 1 (signed_take_bit 7 ((status AND 0x7f) + 1)))"

definition W_EXITCODE :: "int \<Rightarrow> int \<Rightarrow> int" where
  "W_EXITCODE ret sig = ret * 256 + sig"

text \<open>
  \<open>cleanup_primary_client\<close>. The function declares \<open>int status\<close> without a value
  and does not look at what \<open>waitpid(pid, &status, 0)\<close> returns. When the call
  succeeds (\<open>waitpid_ok\<close>) the kernel has stored the status of the client
  (\<open>client_status\<close>); when it fails, as it does with \<open>ECHILD\<close> in a process that
  ignores \<open>SIGCHLD\<close>, nothing is stored and the macros read what the variable
  happened to hold (\<open>uninitialised_status\<close>). The \<open>waitpid\<close> call itself is
  recorded where \<open>main\<close> calls the function.
\<close>

record waitpid_answers =
  waitpid_ok :: bool
  client_status :: int
  uninitialised_status :: int

definition cleanup_primary_client :: "waitpid_answers \<Rightarrow> int" where
  "cleanup_primary_client w =
     (let status = (if waitpid_ok w then client_status w else uninitialised_status w)
      in if WIFEXITED status then WEXITSTATUS status
         else if WIFSIGNALED status then 128 + WTERMSIG status
         else 0)"

text \<open>
  \<open>drop_permissions\<close>. The ids are what \<open>getuid\<close>, \<open>getgid\<close>, \<open>geteuid\<close> and
  \<open>getegid\<close> return; the four \<open>set*\<close> fields are what the kernel returns for
  \<open>setgid(getgid())\<close>, \<open>setuid(getuid())\<close>, \<open>setgid(0)\<close> and \<open>setuid(0)\<close> when the
  function gets to call them.
\<close>

record credentials =
  uid :: nat
  gid :: nat
  euid :: nat
  egid :: nat
  setgid_own :: int
  setuid_own :: int
  setgid_root :: int
  setuid_root :: int

definition drop_permissions :: "credentials \<Rightarrow> bool" where
  "drop_permissions c =
     (if uid c = 0 \<or> gid c = 0 then True
      else if (uid c \<noteq> euid c \<or> gid c \<noteq> egid c)
              \<and> (setgid_own c \<noteq> 0 \<or> setuid_own c \<noteq> 0) then False
      else if setgid_root c \<noteq> - 1 \<or> setuid_root c \<noteq> - 1 then False
      else True)"

text \<open>
  \<open>spawn_primary_client\<close>, in the server process. The answers are those of
  \<open>pipe\<close> (with the two descriptors it stores), of \<open>fork\<close> and of the two
  \<open>set_cloexec\<close> calls. \<open>fork\<close> answers \<open>- 1\<close> on failure and the child's pid in
  the parent; the branch \<open>pid == 0\<close> runs in the child, which calls \<open>execvp\<close> or
  \<open>_exit(1)\<close> and never returns into the server. The result is whether the spawn
  succeeded, the pid stored through \<open>pid_out\<close> (0, as \<open>main\<close> initialised it,
  when it was not written), and whether the liveness source was registered.
\<close>

record spawn_answers =
  pipe_ok :: bool
  pipe_read_fd :: nat
  pipe_write_fd :: nat
  fork_pid :: int
  cloexec_read_ok :: bool
  cloexec_write_ok :: bool

record spawn_result =
  spawned :: bool
  pid_out :: int
  sigchld_source :: bool
  spawn_server :: gf_server

definition spawn_primary_client :: "spawn_answers \<Rightarrow> gf_server \<Rightarrow> spawn_result" where
  "spawn_primary_client a server =
     (if \<not> pipe_ok a then
        \<lparr>spawned = False, pid_out = 0, sigchld_source = False,
         spawn_server = do_call Pipe server\<rparr>
      else if fork_pid a = - 1 then
        \<lparr>spawned = False, pid_out = 0, sigchld_source = False,
         spawn_server = do_call Fork (do_call Pipe server)\<rparr>
      else if \<not> cloexec_read_ok a \<or> \<not> cloexec_write_ok a then
        \<lparr>spawned = False, pid_out = fork_pid a, sigchld_source = False,
         spawn_server = do_call Fork (do_call Pipe server)\<rparr>
      else
        \<lparr>spawned = True, pid_out = fork_pid a, sigchld_source = True,
         spawn_server =
           do_call (Close_fd (pipe_write_fd a)) (do_call Fork (do_call Pipe server))\<rparr>)"

section \<open>Global keybindings\<close>

text \<open>
  Constants of \<open>xkbcommon-keysyms.h\<close> and \<open>wlr_keyboard.h\<close>.
\<close>

definition XKB_KEY_Escape :: "32 word" where "XKB_KEY_Escape = 0xff1b"
definition XKB_KEY_XF86Switch_VT_1 :: "32 word" where "XKB_KEY_XF86Switch_VT_1 = 0x1008FE01"
definition XKB_KEY_XF86Switch_VT_12 :: "32 word" where "XKB_KEY_XF86Switch_VT_12 = 0x1008FE0C"
definition WLR_MODIFIER_ALT :: "32 word" where "WLR_MODIFIER_ALT = 8"

record wlr_keyboard_key_event =
  time_msec :: "32 word"
  keycode :: "32 word"
  key_state :: wl_keyboard_key_state

definition handle_keybinding :: "gf_server \<Rightarrow> 32 word \<Rightarrow> bool \<times> gf_server" where
  "handle_keybinding server keysym =
     (if keysym = XKB_KEY_Escape then (True, server_terminate server)
      else if allow_vt_switch server \<and> XKB_KEY_XF86Switch_VT_1 \<le> keysym
              \<and> keysym \<le> XKB_KEY_XF86Switch_VT_12 then
        (True,
         do_call Wlr_idle_notifier_v1_notify_activity
           (if backend_is_multi server \<and> session server \<noteq> None
            then do_call (Wlr_session_change_vt (keysym - XKB_KEY_XF86Switch_VT_1 + 1)) server
            else server))
      else (False, server))"

text \<open>
  \<open>handle_key_event\<close>. \<open>modifiers\<close> is what \<open>wlr_keyboard_get_modifiers\<close> returns
  and \<open>syms\<close> the symbols \<open>xkb_state_key_get_syms\<close> yields for the key. The loop
  assigns \<open>handled\<close> anew for every symbol.
\<close>

definition handle_key_event ::
  "32 word \<Rightarrow> 32 word list \<Rightarrow> wlr_keyboard_key_event \<Rightarrow> gf_server \<Rightarrow> gf_server" where
  "handle_key_event modifiers syms event server =
     (let (handled, server1) =
            (if modifiers AND WLR_MODIFIER_ALT \<noteq> 0
                \<and> key_state event = WL_KEYBOARD_KEY_STATE_PRESSED
             then foldl (\<lambda>(h, s) keysym. handle_keybinding s keysym) (False, server) syms
             else (False, server));
          server2 =
            (if \<not> handled
             then do_call
                    (Wlr_seat_keyboard_notify_key (time_msec event) (keycode event) (key_state event))
                    (do_call Wlr_seat_set_keyboard server1)
             else server1)
      in do_call Wlr_idle_notifier_v1_notify_activity server2)"

section \<open>Output manager\<close>

text \<open>
  \<open>x11\<close> is the build flag \<open>WLR_HAS_X11_BACKEND\<close>.
\<close>

definition is_nested_output :: "bool \<Rightarrow> gf_output \<Rightarrow> bool" where
  "is_nested_output x11 output =
     (if is_wl output then True
      else if x11 \<and> is_x11 output then True
      else False)"

text \<open>
  \<open>update_output_manager_config\<close> builds one configuration head per output of the
  list, in list order, and hands the configuration to the output manager. The positions
  it copies from the layout boxes are not part of the model. \<open>output_layout_add_auto\<close>
  asserts that the output has a scene output and adds the output to the layout (the
  scene layout, which it updates too, is not part of the model).
\<close>

definition update_output_manager_config :: "gf_server \<Rightarrow> gf_server" where
  "update_output_manager_config server =
     do_call (Wlr_output_manager_v1_set_configuration (map wlr_output (outputs server))) server"

definition output_layout_add_auto :: "gf_output \<Rightarrow> gf_server \<Rightarrow> error + gf_server" where
  "output_layout_add_auto output server =
     (case scene_output output of
        None \<Rightarrow> Inl Assertion_failed
      | Some so \<Rightarrow>
          Inr ((do_call (Wlr_output_layout_add_auto (wlr_output output)) server)
                 \<lparr>output_layout :=
                    (if wlr_output output \<in> set (output_layout server) then output_layout server
                     else output_layout server @ [wlr_output output])\<rparr>))"

definition output_layout_remove :: "gf_output \<Rightarrow> gf_server \<Rightarrow> gf_server" where
  "output_layout_remove output server =
     (do_call (Wlr_output_layout_remove (wlr_output output)) server)
       \<lparr>output_layout := removeAll (wlr_output output) (output_layout server)\<rparr>"

text \<open>
  A commit of \<open>enabled = v\<close> on the backend output \<open>n\<close>: when the backend accepts it
  (\<open>commit_ok\<close>), \<open>wlr_output->enabled\<close> of that output becomes \<open>v\<close>.
\<close>

definition wlr_output_commit_state :: "bool \<Rightarrow> nat \<Rightarrow> bool \<Rightarrow> gf_server \<Rightarrow> gf_server" where
  "wlr_output_commit_state commit_ok n v server =
     (do_call (Wlr_output_commit_state n v) server)
       \<lparr>outputs :=
          (if commit_ok
           then map (\<lambda>out. if wlr_output out = n then out\<lparr>enabled := v\<rparr> else out) (outputs server)
           else outputs server)\<rparr>"

definition output_enable :: "bool \<Rightarrow> gf_output \<Rightarrow> gf_server \<Rightarrow> error + gf_server" where
  "output_enable commit_ok output server =
     (let server1 = wlr_output_commit_state commit_ok (wlr_output output) True server
      in if commit_ok then
           (case output_layout_add_auto output server1 of
              Inl e \<Rightarrow> Inl e
            | Inr server2 \<Rightarrow> Inr (update_output_manager_config server2))
         else Inr (update_output_manager_config server1))"

definition output_disable :: "bool \<Rightarrow> gf_output \<Rightarrow> gf_server \<Rightarrow> gf_server" where
  "output_disable commit_ok output server =
     (if \<not> enabled output then server
      else output_layout_remove output
             (wlr_output_commit_state commit_ok (wlr_output output) False server))"

text \<open>
  \<open>output_destroy\<close>. \<open>wl_list_remove(&output->link)\<close> takes the record out of
  \<open>server->outputs\<close>; \<open>server->outputs.next\<close> is the head of what remains.
  \<open>view_position_all\<close> belongs to the view registry and is a call here.
\<close>

definition output_destroy :: "bool \<Rightarrow> bool \<Rightarrow> gf_output \<Rightarrow> gf_server \<Rightarrow> error + gf_server" where
  "output_destroy x11 commit_ok output server =
     (let was_nested_output = is_nested_output x11 output;
          server1 = server\<lparr>outputs := remove1 output (outputs server)\<rparr>;
          server2 = output_layout_remove output server1
      in if outputs server2 = [] \<and> was_nested_output then Inr (server_terminate server2)
         else if output_mode server2 = GAMEFRAME_MULTI_OUTPUT_MODE_LAST \<and> outputs server2 \<noteq> [] then
           (case output_enable commit_ok (hd (outputs server2)) server2 of
              Inl e \<Rightarrow> Inl e
            | Inr server3 \<Rightarrow> Inr (do_call View_position_all server3))
         else Inr server2)"

text \<open>
  \<open>handle_new_output\<close>. The answers are those of \<open>wlr_output_init_render\<close>,
  \<open>calloc\<close>, \<open>wlr_scene_output_create\<close> and the commit of the first state.
  \<open>raw\<close> is the output as the backend announces it. The mode the handler chooses
  is an argument of that commit only; it, the full-screen request to a nested output
  and the loading of the cursor theme change nothing the model holds and are left out.
\<close>

record new_output_answers =
  init_render_ok :: bool
  output_alloc_ok :: bool
  scene_output_created :: "nat option"
  first_commit_ok :: bool

definition handle_new_output ::
  "new_output_answers \<Rightarrow> gf_output \<Rightarrow> gf_server \<Rightarrow> error + gf_server" where
  "handle_new_output a raw server =
     (if \<not> init_render_ok a then Inr server
      else if \<not> output_alloc_ok a then Inr server
      else
        (let output = raw\<lparr>scene_output := scene_output_created a\<rparr>;
             server1 = server\<lparr>outputs := output # outputs server\<rparr>
         in if scene_output output = None then Inr server1
            else
              (let server2 = wlr_output_commit_state (first_commit_ok a) (wlr_output output) True server1
               in case (if first_commit_ok a then output_layout_add_auto output server2
                        else Inr server2) of
                    Inl e \<Rightarrow> Inl e
                  | Inr server3 \<Rightarrow>
                      Inr (update_output_manager_config (do_call View_position_all server3)))))"

text \<open>
  \<open>output_config_apply\<close>. A configuration is given by what the collaborators answer
  for it: the states \<open>wlr_output_configuration_v1_build_state\<close> builds (\<open>None\<close> for
  NULL), whether \<open>wlr_output_swapchain_manager_prepare\<close> accepts them, and whether
  \<open>wlr_backend_commit\<close> succeeds. For each state, \<open>state_output_data\<close> is
  \<open>backend_state->output->data\<close> and \<open>scene_build_ok\<close> the answer of
  \<open>wlr_scene_output_build_state\<close>.
\<close>

record wlr_backend_output_state =
  state_output_data :: "gf_output option"
  scene_build_ok :: bool

record wlr_output_configuration_v1 =
  build_state :: "wlr_backend_output_state list option"
  prepare_ok :: bool
  backend_commit_ok :: bool

fun build_scene_states :: "wlr_backend_output_state list \<Rightarrow> gf_server \<Rightarrow> error + bool \<times> gf_server" where
  "build_scene_states [] server = Inr (True, server)"
| "build_scene_states (backend_state # states) server =
     (case state_output_data backend_state of
        None \<Rightarrow> Inl Null_dereference
      | Some output \<Rightarrow>
          (let server1 = do_call (Wlr_scene_output_build_state (wlr_output output)) server
           in if \<not> scene_build_ok backend_state then Inr (False, server1)
              else build_scene_states states server1))"

definition output_config_apply ::
  "wlr_output_configuration_v1 \<Rightarrow> bool \<Rightarrow> gf_server \<Rightarrow> error + bool \<times> gf_server" where
  "output_config_apply config test_only server =
     (case build_state config of
        None \<Rightarrow> Inr (False, server)
      | Some states \<Rightarrow>
          (let server1 = do_call Wlr_output_swapchain_manager_prepare server;
               ok = prepare_ok config
           in if \<not> ok \<or> test_only then Inr (ok, server1)
              else
                (case build_scene_states states server1 of
                   Inl e \<Rightarrow> Inl e
                 | Inr (built, server2) \<Rightarrow>
                     if \<not> built then Inr (False, server2)
                     else Inr (backend_commit_ok config, do_call Wlr_backend_commit server2))))"

definition handle_output_manager_apply ::
  "wlr_output_configuration_v1 \<Rightarrow> gf_server \<Rightarrow> error + gf_server" where
  "handle_output_manager_apply config server =
     (case output_config_apply config False server of
        Inl e \<Rightarrow> Inl e
      | Inr (ok, server1) \<Rightarrow> Inr (do_call Wlr_output_configuration_v1_send_succeeded server1))"

definition handle_output_manager_test ::
  "wlr_output_configuration_v1 \<Rightarrow> gf_server \<Rightarrow> error + gf_server" where
  "handle_output_manager_test config server =
     (case output_config_apply config True server of
        Inl e \<Rightarrow> Inl e
      | Inr (ok, server1) \<Rightarrow> Inr (do_call Wlr_output_configuration_v1_send_succeeded server1))"

section \<open>Idle inhibition\<close>

text \<open>
  An inhibitor is named by the address \<open>calloc\<close> returned for it; \<open>alloc_ok\<close> is
  whether \<open>calloc\<close> succeeded. \<open>handle_idle_inhibitor_v1_new\<close> returns at once
  when it did not; otherwise it links the record into \<open>server->inhibitors\<close> with
  \<open>wl_list_insert\<close> and recomputes the flag.
\<close>

definition idle_inhibit_v1_check_active :: "gf_server \<Rightarrow> gf_server" where
  "idle_inhibit_v1_check_active server =
     (let inhibited = (\<not> wl_list_empty (inhibitors server))
      in do_call (Wlr_idle_notifier_v1_set_inhibited inhibited) server)"

definition handle_destroy :: "nat \<Rightarrow> gf_server \<Rightarrow> gf_server" where
  "handle_destroy inhibitor server =
     idle_inhibit_v1_check_active
       (server\<lparr>inhibitors := wl_list_remove inhibitor (inhibitors server)\<rparr>)"

definition handle_idle_inhibitor_v1_new :: "bool \<Rightarrow> nat \<Rightarrow> gf_server \<Rightarrow> error + gf_server" where
  "handle_idle_inhibitor_v1_new alloc_ok inhibitor server =
     (if \<not> alloc_ok then Inr server
      else
        (case wl_list_insert (inhibitors server) inhibitor of
           Inl e \<Rightarrow> Inl e
         | Inr list \<Rightarrow> Inr (idle_inhibit_v1_check_active (server\<lparr>inhibitors := list\<rparr>))))"

section \<open>The event loop and \<open>main\<close>\<close>

text \<open>
  The events the loop delivers to the handlers above, each with the answers the
  handler obtains from its collaborators. \<open>Liveness fd m\<close> is the source of the
  liveness pipe firing with mask \<open>m\<close>; \<open>Output_destroyed c n\<close> is the destroy signal
  of the backend output \<open>n\<close>, which runs the listener of the \<open>gf_output\<close> wrapping
  it (\<open>c\<close> answers the commit that enables a promoted output);
  \<open>Idle_inhibitor_destroyed i\<close> runs the destroy listener of inhibitor \<open>i\<close>.
\<close>

datatype event =
    Liveness nat "32 word"
  | Signal int
  | Keyboard_key "32 word" "32 word list" wlr_keyboard_key_event
  | New_output new_output_answers gf_output
  | Output_destroyed bool nat
  | Output_manager_apply wlr_output_configuration_v1
  | Output_manager_test wlr_output_configuration_v1
  | New_idle_inhibitor bool nat
  | Idle_inhibitor_destroyed nat

fun dispatch_event :: "bool \<Rightarrow> event \<Rightarrow> gf_server \<Rightarrow> error + gf_server" where
  "dispatch_event x11 (Liveness fd m) server = Inr (sigchld_handler fd m server)"
| "dispatch_event x11 (Signal n) server = Inr (handle_signal n server)"
| "dispatch_event x11 (Keyboard_key modifiers syms ev) server =
     Inr (handle_key_event modifiers syms ev server)"
| "dispatch_event x11 (New_output a raw) server = handle_new_output a raw server"
| "dispatch_event x11 (Output_destroyed c n) server =
     (case find (\<lambda>out. wlr_output out = n) (outputs server) of
        None \<Rightarrow> Inr server
      | Some output \<Rightarrow> output_destroy x11 c output server)"
| "dispatch_event x11 (Output_manager_apply config) server =
     handle_output_manager_apply config server"
| "dispatch_event x11 (Output_manager_test config) server =
     handle_output_manager_test config server"
| "dispatch_event x11 (New_idle_inhibitor alloc_ok i) server =
     handle_idle_inhibitor_v1_new alloc_ok i server"
| "dispatch_event x11 (Idle_inhibitor_destroyed i) server =
     Inr (if i \<in> set (wl_list_elements (inhibitors server)) then handle_destroy i server
          else server)"

text \<open>
  One \<open>wl_event_loop_dispatch\<close> runs the handlers of the events that are ready, one
  after the other; a failed assertion or a NULL dereference ends the process.
\<close>

fun dispatch_events :: "bool \<Rightarrow> event list \<Rightarrow> gf_server \<Rightarrow> error + gf_server" where
  "dispatch_events x11 [] server = Inr server"
| "dispatch_events x11 (e # es) server =
     (case dispatch_event x11 e server of
        Inl err \<Rightarrow> Inl err
      | Inr server1 \<Rightarrow> dispatch_events x11 es server1)"

text \<open>
  \<open>wl_display_run\<close> sets the run flag and dispatches while it is set. The argument
  lists what each successive dispatch finds ready; when nothing more ever arrives and
  the flag is still set, the loop blocks for ever and the result is \<open>None\<close>.
\<close>

fun display_loop :: "bool \<Rightarrow> event list list \<Rightarrow> gf_server \<Rightarrow> (error + gf_server) option" where
  "display_loop x11 [] server = None"
| "display_loop x11 (ready # later) server =
     (case dispatch_events x11 ready server of
        Inl err \<Rightarrow> Some (Inl err)
      | Inr server1 \<Rightarrow>
          if display_run server1 then display_loop x11 later server1
          else Some (Inr server1))"

definition wl_display_run :: "bool \<Rightarrow> event list list \<Rightarrow> gf_server \<Rightarrow> (error + gf_server) option" where
  "wl_display_run x11 batches server = display_loop x11 batches (server\<lparr>display_run := True\<rparr>)"

text \<open>
  \<open>parse_args\<close> by its outcome: \<open>Usage\<close> when it prints the usage and returns false,
  \<open>Version\<close> when it prints the version and calls \<open>exit(0)\<close>, and otherwise the
  values it stored for \<open>allow_vt_switch\<close> and \<open>output_mode\<close>.
\<close>

datatype parse_result = Usage | Version | Options bool gameframe_multi_output_mode

text \<open>
  What the environment answers to \<open>main\<close>: for every set-up call whether it
  succeeded, in program order, then the events of the loop and what \<open>waitpid\<close>
  does for the client.
\<close>

record startup =
  parse_args :: parse_result
  xdg_runtime_dir_set :: bool
  display_created :: bool
  backend_created :: bool
  backend_multi :: bool
  backend_session :: "nat option"
  creds :: credentials
  gles2_renderer_created :: bool
  renderer_autocreated :: bool
  allocator_created :: bool
  output_layout_created :: bool
  scene_created :: bool
  compositor_created :: bool
  subcompositor_created :: bool
  data_device_manager_created :: bool
  primary_selection_created :: bool
  seat_created :: bool
  socket_added :: bool
  backend_started :: bool
  application_given :: bool
  spawn :: spawn_answers
  wlr_has_x11_backend :: bool
  loop_events :: "event list list"
  child_status :: waitpid_answers

text \<open>
  The server as \<open>main\<close> has set it up when the loop starts. The initialiser
  \<open>{.log_level = WLR_INFO}\<close> zeroes every other field; \<open>parse_args\<close> stores the two
  options, and \<open>main\<close> calls \<open>wl_list_init\<close> for \<open>server.views\<close> and
  \<open>server.outputs\<close> and for no other list of the server.
\<close>

definition initial_server :: "bool \<Rightarrow> gameframe_multi_output_mode \<Rightarrow> startup \<Rightarrow> gf_server" where
  "initial_server vt mode env =
     \<lparr>terminated = False, display_run = False, return_app_code = False,
      allow_vt_switch = vt, output_mode = mode,
      backend_is_multi = backend_multi env, session = backend_session env,
      outputs = [], output_layout = [], inhibitors = Wl_list_zeroed, calls = []\<rparr>"

text \<open>
  \<open>main\<close>, from \<open>parse_args\<close> to the \<open>return\<close>. The result is the exit code and
  the calls made, \<open>Inl\<close> when a handler aborted the process, and \<open>None\<close> when the
  loop never returns. Every failed set-up step gives 1, by \<open>return 1\<close> or by
  \<open>ret = 1; goto end\<close>; the tear-down after \<open>end:\<close> does not touch \<open>ret\<close> or
  \<open>app_ret\<close> and is left out.
\<close>

definition run_client :: "startup \<Rightarrow> gf_server \<Rightarrow> (error + int \<times> call list) option" where
  "run_client env server =
     (let r = spawn_primary_client (spawn env) server
      in if \<not> spawned r then Some (Inr (1, calls (spawn_server r)))
         else
           (case wl_display_run (wlr_has_x11_backend env) (loop_events env) (spawn_server r) of
              None \<Rightarrow> None
            | Some (Inl err) \<Rightarrow> Some (Inl err)
            | Some (Inr server1) \<Rightarrow>
                if return_app_code server1
                then Some (Inr (cleanup_primary_client (child_status env),
                                calls server1 @ [Waitpid (pid_out r)]))
                else Some (Inr (0, calls server1))))"

definition main :: "startup \<Rightarrow> (error + int \<times> call list) option" where
  "main env =
     (case parse_args env of
        Usage \<Rightarrow> Some (Inr (1, []))
      | Version \<Rightarrow> Some (Inr (0, []))
      | Options vt mode \<Rightarrow>
          if \<not> xdg_runtime_dir_set env then Some (Inr (1, []))
          else if \<not> display_created env then Some (Inr (1, []))
          else if \<not> backend_created env then Some (Inr (1, []))
          else if \<not> drop_permissions (creds env) then Some (Inr (1, []))
          else if \<not> gles2_renderer_created env \<and> \<not> renderer_autocreated env then Some (Inr (1, []))
          else if \<not> allocator_created env then Some (Inr (1, []))
          else if \<not> output_layout_created env then Some (Inr (1, []))
          else if \<not> scene_created env then Some (Inr (1, []))
          else if \<not> compositor_created env then Some (Inr (1, []))
          else if \<not> subcompositor_created env then Some (Inr (1, []))
          else if \<not> data_device_manager_created env then Some (Inr (1, []))
          else if \<not> primary_selection_created env then Some (Inr (1, []))
          else if \<not> seat_created env then Some (Inr (1, []))
          else if \<not> socket_added env then Some (Inr (1, []))
          else if \<not> backend_started env then Some (Inr (1, []))
          else if \<not> application_given env then Some (Inr (1, []))
          else run_client env (initial_server vt mode env))"

section \<open>Views\<close>

text \<open>
  A view is either a \<open>gf_xdg_shell_view\<close> or a \<open>gf_xwayland_view\<close>; both structs
  start with the \<open>struct gf_view\<close>, followed by the pointer to the protocol object:
  \<open>xdg_toplevel\<close> for the first kind, \<open>xwayland_surface\<close> for the second. That
  pointer is the field \<open>native\<close> (\<open>None\<close> for NULL), read through the cast
  \<open>xdg_shell_view_from_view\<close> or \<open>xwayland_view_from_view\<close> whatever the kind of
  the view is. \<open>view_address\<close> is the address of the view; pointers to views are
  compared by it.
\<close>

datatype gf_view_type = GAMEFRAME_XDG_SHELL_VIEW | GAMEFRAME_XWAYLAND_VIEW

record gf_view =
  view_address :: nat
  view_type :: gf_view_type
  native :: "nat option"
  wlr_surface :: "nat option"

text \<open>
  The protocol objects the view code reads: the \<open>parent\<close> field of every
  \<open>wlr_xdg_toplevel\<close> and of every \<open>wlr_xwayland_surface\<close>, by address, and for
  every \<open>wlr_surface\<close> the view \<open>view_from_wlr_surface\<close> returns for it.
\<close>

record view_heap =
  xdg_toplevel_parent :: "nat \<Rightarrow> nat option"
  xwayland_surface_parent :: "nat \<Rightarrow> nat option"
  surface_view :: "nat \<Rightarrow> gf_view option"

text \<open>
  The loop of \<open>is_transient_for\<close>: from \<open>node\<close>, follow \<open>parent\<close> pointers until
  one equals \<open>target\<close> (true) or the node is NULL (false). On a cyclic chain the loop
  does not return.
\<close>

partial_function (option) parent_walk ::
  "(nat \<Rightarrow> nat option) \<Rightarrow> nat option \<Rightarrow> nat option \<Rightarrow> bool option" where
  "parent_walk parent_of node target =
     (case node of
        None \<Rightarrow> Some False
      | Some t \<Rightarrow>
          if parent_of t = target then Some True
          else parent_walk parent_of (parent_of t) target)"

text \<open>\<open>is_transient_for\<close> of xdg_shell.c.\<close>

definition xdg_shell_is_transient_for :: "view_heap \<Rightarrow> gf_view \<Rightarrow> gf_view \<Rightarrow> bool option" where
  "xdg_shell_is_transient_for heap child parent =
     (if view_type parent \<noteq> GAMEFRAME_XDG_SHELL_VIEW then Some False
      else parent_walk (xdg_toplevel_parent heap) (native child) (native parent))"

text \<open>
  Modelled from the spec: the loop of the xwayland \<open>is_transient_for\<close>, which the
  source file cuts off after the declarations; it walks the parent chain of the
  child's \<open>xwayland_surface\<close> and returns true iff the parent's surface appears in
  it. The test of the parent's type before the declarations is in the source and is
  translated from it.
\<close>

definition xwayland_is_transient_for :: "view_heap \<Rightarrow> gf_view \<Rightarrow> gf_view \<Rightarrow> bool option" where
  "xwayland_is_transient_for heap child parent =
     (if view_type parent \<noteq> GAMEFRAME_XDG_SHELL_VIEW then Some False
      else parent_walk (xwayland_surface_parent heap) (native child) (native parent))"

text \<open>
  Modelled from the spec: \<open>view_is_transient_for\<close> of view.c, which is not among the
  sources. It calls the \<open>is_transient_for\<close> of the child's \<open>impl\<close> table, so a NULL
  child is a NULL dereference.
\<close>

definition view_is_transient_for ::
  "view_heap \<Rightarrow> gf_view option \<Rightarrow> gf_view \<Rightarrow> (error + bool) option" where
  "view_is_transient_for heap child parent =
     (case child of
        None \<Rightarrow> Some (Inl Null_dereference)
      | Some c \<Rightarrow>
          map_option Inr
            (case view_type c of
               GAMEFRAME_XDG_SHELL_VIEW \<Rightarrow> xdg_shell_is_transient_for heap c parent
             | GAMEFRAME_XWAYLAND_VIEW \<Rightarrow> xwayland_is_transient_for heap c parent))"

section \<open>Seat\<close>

text \<open>
  \<open>struct wlr_input_device\<close>: its address, its type, the keymap of a keyboard and
  the name of the output it prefers (\<open>None\<close> for NULL).
\<close>

datatype wlr_input_device_type =
    WLR_INPUT_DEVICE_KEYBOARD
  | WLR_INPUT_DEVICE_POINTER
  | WLR_INPUT_DEVICE_TOUCH
  | WLR_INPUT_DEVICE_TABLET
  | WLR_INPUT_DEVICE_TABLET_PAD
  | WLR_INPUT_DEVICE_SWITCH
  | WLR_INPUT_DEVICE_VIRTUAL_KEYBOARD

record wlr_input_device =
  device :: nat
  device_type :: wlr_input_device_type
  keymap :: nat
  output_name :: "string option"

record gf_keyboard_group =
  group_address :: nat
  group_keymap :: nat
  is_virtual :: bool

datatype cursor_image = Cursor_unset | Cursor_default_xcursor

datatype destroy_listener = Pointer_destroy | Touch_destroy

datatype seat_call =
    Wlr_cursor_attach_input_device nat
  | Wlr_cursor_detach_input_device nat
  | Wlr_cursor_map_input_to_output nat string
  | Wlr_cursor_move
  | Wlr_seat_pointer_notify_button
  | Wlr_seat_keyboard_notify_enter "nat option"
  | View_activate nat bool
  | Seat_notify_activity

text \<open>
  \<open>struct gf_seat\<close> with the state of its \<open>wlr_seat\<close> and \<open>wlr_cursor\<close>:
  \<open>capabilities\<close> is what \<open>wlr_seat_set_capabilities\<close> stored last,
  \<open>cursor_image\<close> the image set last, \<open>focused_surface\<close> is
  \<open>keyboard_state.focused_surface\<close>, and \<open>seat_keyboard\<close> says whether
  \<open>wlr_seat_get_keyboard\<close> returns a keyboard. \<open>destroy_listeners\<close> are the
  listeners the seat has added to the destroy signal of input devices, by device, in
  the order they were added. Pointers and touch devices are named by the address of
  their input device.
\<close>

record gf_seat =
  keyboard_groups :: "gf_keyboard_group list"
  pointers :: "nat list"
  touch :: "nat list"
  capabilities :: "32 word"
  cursor_image :: cursor_image
  focused_surface :: "nat option"
  seat_keyboard :: bool
  destroy_listeners :: "(nat \<times> destroy_listener) list"
  seat_calls :: "seat_call list"

definition seat_call :: "seat_call \<Rightarrow> gf_seat \<Rightarrow> gf_seat" where
  "seat_call c seat = seat\<lparr>seat_calls := seat_calls seat @ [c]\<rparr>"

definition WL_SEAT_CAPABILITY_POINTER :: "32 word" where "WL_SEAT_CAPABILITY_POINTER = 1"
definition WL_SEAT_CAPABILITY_KEYBOARD :: "32 word" where "WL_SEAT_CAPABILITY_KEYBOARD = 2"
definition WL_SEAT_CAPABILITY_TOUCH :: "32 word" where "WL_SEAT_CAPABILITY_TOUCH = 4"

definition update_capabilities :: "gf_seat \<Rightarrow> gf_seat" where
  "update_capabilities seat =
     (let caps0 = (0 :: 32 word);
          caps1 = (if keyboard_groups seat \<noteq> [] then caps0 OR WL_SEAT_CAPABILITY_KEYBOARD else caps0);
          caps2 = (if pointers seat \<noteq> [] then caps1 OR WL_SEAT_CAPABILITY_POINTER else caps1);
          caps = (if touch seat \<noteq> [] then caps2 OR WL_SEAT_CAPABILITY_TOUCH else caps2)
      in seat\<lparr>capabilities := caps,
               cursor_image :=
                 (if caps AND WL_SEAT_CAPABILITY_POINTER = 0 then Cursor_unset
                  else Cursor_default_xcursor)\<rparr>)"

text \<open>
  \<open>map_input_device_to_output\<close>; \<open>output_names\<close> are the names of the outputs of
  \<open>seat->server->outputs\<close>, in list order.
\<close>

definition map_input_device_to_output ::
  "string list \<Rightarrow> wlr_input_device \<Rightarrow> gf_seat \<Rightarrow> gf_seat" where
  "map_input_device_to_output output_names dev seat =
     (case output_name dev of
        None \<Rightarrow> seat
      | Some n \<Rightarrow>
          (case find (\<lambda>name. name = n) output_names of
             None \<Rightarrow> seat
           | Some name \<Rightarrow> seat_call (Wlr_cursor_map_input_to_output (device dev) name) seat))"

definition handle_touch_destroy :: "nat \<Rightarrow> gf_seat \<Rightarrow> gf_seat" where
  "handle_touch_destroy t seat =
     update_capabilities
       ((seat_call (Wlr_cursor_detach_input_device t) (seat\<lparr>touch := remove1 t (touch seat)\<rparr>))
          \<lparr>destroy_listeners := remove1 (t, Touch_destroy) (destroy_listeners seat)\<rparr>)"

definition handle_new_touch ::
  "bool \<Rightarrow> string list \<Rightarrow> wlr_input_device \<Rightarrow> gf_seat \<Rightarrow> gf_seat" where
  "handle_new_touch alloc_ok output_names dev seat =
     (if \<not> alloc_ok then seat
      else
        update_capabilities
          (map_input_device_to_output output_names dev
             ((seat_call (Wlr_cursor_attach_input_device (device dev)) seat)
                \<lparr>touch := device dev # touch seat,
                 destroy_listeners := destroy_listeners seat @ [(device dev, Touch_destroy)]\<rparr>)))"

definition handle_pointer_destroy :: "nat \<Rightarrow> gf_seat \<Rightarrow> gf_seat" where
  "handle_pointer_destroy p seat =
     update_capabilities
       ((seat_call (Wlr_cursor_detach_input_device p) (seat\<lparr>pointers := remove1 p (pointers seat)\<rparr>))
          \<lparr>destroy_listeners := remove1 (p, Pointer_destroy) (destroy_listeners seat)\<rparr>)"

definition handle_new_pointer ::
  "bool \<Rightarrow> string list \<Rightarrow> wlr_input_device \<Rightarrow> gf_seat \<Rightarrow> gf_seat" where
  "handle_new_pointer alloc_ok output_names dev seat =
     (if \<not> alloc_ok then seat
      else
        update_capabilities
          (map_input_device_to_output output_names dev
             ((seat_call (Wlr_cursor_attach_input_device (device dev)) seat)
                \<lparr>pointers := device dev # pointers seat,
                 destroy_listeners := destroy_listeners seat @ [(device dev, Pointer_destroy)]\<rparr>)))"

text \<open>
  \<open>gf_keyboard_group_add\<close>. \<open>accepts g k\<close> is what
  \<open>wlr_keyboard_group_add_keyboard\<close> answers for the group \<open>g\<close> and the keyboard
  \<open>k\<close>; the two other answers are those of \<open>calloc\<close> and
  \<open>wlr_keyboard_group_create\<close>, and \<open>new_address\<close> is the address of the new group.
  The function adds listeners to the key and modifiers signals of the new group and to
  no destroy signal: \<open>handle_keyboard_destroy\<close>, written as the listener of the
  \<open>destroy\<close> member of a group, is added to a signal by no function of the source,
  so it never runs and has no part in the model.
\<close>

record keyboard_answers =
  accepts :: "gf_keyboard_group \<Rightarrow> wlr_input_device \<Rightarrow> bool"
  group_alloc_ok :: bool
  group_create_ok :: bool
  new_address :: nat

definition gf_keyboard_group_add ::
  "keyboard_answers \<Rightarrow> wlr_input_device \<Rightarrow> bool \<Rightarrow> gf_seat \<Rightarrow> gf_seat" where
  "gf_keyboard_group_add a keyboard virtual seat =
     (if \<not> virtual
         \<and> find (\<lambda>g. \<not> is_virtual g \<and> accepts a g keyboard) (keyboard_groups seat) \<noteq> None
      then seat
      else if \<not> group_alloc_ok a then seat
      else if \<not> group_create_ok a then seat
      else
        update_capabilities
          (seat\<lparr>keyboard_groups :=
                  \<lparr>group_address = new_address a, group_keymap = keymap keyboard,
                   is_virtual = virtual\<rparr> # keyboard_groups seat\<rparr>))"

definition handle_new_keyboard ::
  "keyboard_answers \<Rightarrow> string list \<Rightarrow> wlr_input_device \<Rightarrow> gf_seat \<Rightarrow> gf_seat" where
  "handle_new_keyboard a output_names dev seat =
     (let virtual = (device_type dev = WLR_INPUT_DEVICE_VIRTUAL_KEYBOARD)
      in map_input_device_to_output output_names dev
           (update_capabilities (gf_keyboard_group_add a dev virtual seat)))"

text \<open>
  \<open>handle_new_input\<close>; \<open>alloc_ok\<close> answers the \<open>calloc\<close> of a pointer or touch
  record.
\<close>

definition handle_new_input ::
  "keyboard_answers \<Rightarrow> bool \<Rightarrow> string list \<Rightarrow> wlr_input_device \<Rightarrow> gf_seat \<Rightarrow> gf_seat" where
  "handle_new_input a alloc_ok output_names dev seat =
     (case device_type dev of
        WLR_INPUT_DEVICE_KEYBOARD \<Rightarrow> handle_new_keyboard a output_names dev seat
      | WLR_INPUT_DEVICE_POINTER \<Rightarrow> handle_new_pointer alloc_ok output_names dev seat
      | WLR_INPUT_DEVICE_TOUCH \<Rightarrow> handle_new_touch alloc_ok output_names dev seat
      | _ \<Rightarrow> seat)"

text \<open>
  The destroy signal of an input device runs the listeners the seat has added to it,
  in the order they were added.
\<close>

definition run_destroy_listener :: "nat \<Rightarrow> gf_seat \<Rightarrow> destroy_listener \<Rightarrow> gf_seat" where
  "run_destroy_listener d seat l =
     (case l of
        Pointer_destroy \<Rightarrow> handle_pointer_destroy d seat
      | Touch_destroy \<Rightarrow> handle_touch_destroy d seat)"

definition input_device_destroy :: "wlr_input_device \<Rightarrow> gf_seat \<Rightarrow> gf_seat" where
  "input_device_destroy dev seat =
     foldl (run_destroy_listener (device dev)) seat
       (map snd (filter (\<lambda>(d, l). d = device dev) (destroy_listeners seat)))"

text \<open>
  \<open>seat_create\<close> when its four allocations succeed: the cursor gets the default
  image, the lists are empty, and \<open>update_capabilities\<close> runs once.
\<close>

definition seat_create :: gf_seat where
  "seat_create =
     update_capabilities
       \<lparr>keyboard_groups = [], pointers = [], touch = [], capabilities = 0,
        cursor_image = Cursor_default_xcursor, focused_surface = None, seat_keyboard = False,
        destroy_listeners = [], seat_calls = []\<rparr>"

subsection \<open>Focus\<close>

definition seat_get_focus :: "view_heap \<Rightarrow> gf_seat \<Rightarrow> gf_view option" where
  "seat_get_focus heap seat =
     (case focused_surface seat of
        None \<Rightarrow> None
      | Some surface \<Rightarrow> surface_view heap surface)"

text \<open>
  \<open>seat_set_focus\<close>: with a keyboard on the seat, \<open>wlr_seat_keyboard_notify_enter\<close>
  makes the view's surface the focused surface; without one the focused surface stays.
  The view is activated in both cases.
\<close>

definition seat_set_focus :: "gf_seat \<Rightarrow> gf_view \<Rightarrow> gf_seat" where
  "seat_set_focus seat view =
     (let surface = wlr_surface view;
          seat1 = (if seat_keyboard seat
                   then (seat_call (Wlr_seat_keyboard_notify_enter surface) seat)
                          \<lparr>focused_surface := surface\<rparr>
                   else seat)
      in seat_call (View_activate (view_address view) True) seat1)"

definition WLR_BUTTON_PRESSED :: "32 word" where "WLR_BUTTON_PRESSED = 1"

text \<open>
  \<open>press_cursor_button\<close>. \<open>view_at\<close> is the view \<open>desktop_view_at\<close> finds
  under the point, \<open>None\<close> for NULL. \<open>view_is_transient_for\<close> is applied to the
  current focus and the view, in this order; its result is \<open>None\<close> when it does not
  return.
\<close>

definition press_cursor_button ::
  "view_heap \<Rightarrow> gf_view option \<Rightarrow> 32 word \<Rightarrow> gf_seat \<Rightarrow> (error + gf_seat) option" where
  "press_cursor_button heap view_at button_state seat =
     (if button_state = WLR_BUTTON_PRESSED then
        (let view = view_at;
             current = seat_get_focus heap seat
         in if map_option view_address view = map_option view_address current then Some (Inr seat)
            else
              (case view of
                 None \<Rightarrow> Some (Inr seat)
               | Some v \<Rightarrow>
                   (case view_is_transient_for heap current v of
                      None \<Rightarrow> None
                    | Some (Inl e) \<Rightarrow> Some (Inl e)
                    | Some (Inr transient) \<Rightarrow>
                        Some (Inr (if \<not> transient then seat_set_focus seat v else seat)))))
      else Some (Inr seat))"

text \<open>
  The cursor handlers. Both motion handlers move the cursor and then run
  \<open>press_cursor_button\<close> with the state 1 at the new position; the button handler
  forwards the button to the client and does not run it.
\<close>

definition handle_cursor_motion ::
  "view_heap \<Rightarrow> gf_view option \<Rightarrow> gf_seat \<Rightarrow> (error + gf_seat) option" where
  "handle_cursor_motion heap view_at seat =
     press_cursor_button heap view_at 1
       (seat_call Seat_notify_activity (seat_call Wlr_cursor_move seat))"

definition handle_cursor_button :: "gf_seat \<Rightarrow> gf_seat" where
  "handle_cursor_button seat =
     seat_call Seat_notify_activity (seat_call Wlr_seat_pointer_notify_button seat)"

section \<open>Notions used to state the properties of the supervisor\<close>

text \<open>
  \<open>setup_succeeds\<close>: every step of \<open>main\<close> before the spawn succeeds.
  \<open>is_liveness\<close>: the event is the liveness source firing.
\<close>

definition setup_succeeds :: "startup \<Rightarrow> bool" where
  "setup_succeeds env =
     (parse_args env \<noteq> Usage \<and> parse_args env \<noteq> Version
      \<and> xdg_runtime_dir_set env \<and> display_created env \<and> backend_created env
      \<and> drop_permissions (creds env)
      \<and> (gles2_renderer_created env \<or> renderer_autocreated env)
      \<and> allocator_created env \<and> output_layout_created env \<and> scene_created env
      \<and> compositor_created env \<and> subcompositor_created env
      \<and> data_device_manager_created env \<and> primary_selection_created env
      \<and> seat_created env \<and> socket_added env \<and> backend_started env
      \<and> application_given env)"

fun is_liveness :: "event \<Rightarrow> bool" where
  "is_liveness (Liveness fd m) = True"
| "is_liveness e = False"

text \<open>
  The events whose handlers ran: \<open>handled\<close> within one dispatch (up to and including
  a handler that aborts), \<open>delivered\<close> over the whole run of the loop (up to the
  dispatch after which the run flag is clear).
\<close>

fun handled :: "bool \<Rightarrow> event list \<Rightarrow> gf_server \<Rightarrow> event list" where
  "handled x11 [] server = []"
| "handled x11 (e # es) server =
     e # (case dispatch_event x11 e server of
            Inl err \<Rightarrow> []
          | Inr server1 \<Rightarrow> handled x11 es server1)"

fun delivered :: "bool \<Rightarrow> event list list \<Rightarrow> gf_server \<Rightarrow> event list" where
  "delivered x11 [] server = []"
| "delivered x11 (ready # later) server =
     handled x11 ready server @
       (case dispatch_events x11 ready server of
          Inl err \<Rightarrow> []
        | Inr server1 \<Rightarrow> if display_run server1 then delivered x11 later server1 else [])"

text \<open>
  \<open>loop_start\<close> is the server as \<open>wl_display_run\<close> starts dispatching, after a
  successful spawn; \<open>client_exit_delivered\<close> says that the liveness source fired while
  the loop ran.
\<close>

definition loop_start :: "bool \<Rightarrow> gameframe_multi_output_mode \<Rightarrow> startup \<Rightarrow> gf_server" where
  "loop_start vt mode env =
     (spawn_server (spawn_primary_client (spawn env) (initial_server vt mode env)))
       \<lparr>display_run := True\<rparr>"

definition client_exit_delivered :: "bool \<Rightarrow> gameframe_multi_output_mode \<Rightarrow> startup \<Rightarrow> bool" where
  "client_exit_delivered vt mode env =
     (\<exists>e \<in> set (delivered (wlr_has_x11_backend env) (loop_events env) (loop_start vt mode env)).
        is_liveness e)"

text \<open>
  Two relations between the server before and after a step. \<open>supervision_kept\<close>: the
  step left \<open>terminated\<close> and \<open>return_app_code\<close> as they were, did not set the run
  flag and called no \<open>waitpid\<close>. \<open>supervision_grew\<close>: the step left \<open>terminated\<close>
  as it was, did not clear \<open>return_app_code\<close> and did not set the run flag.
\<close>

definition supervision_kept :: "gf_server \<Rightarrow> gf_server \<Rightarrow> bool" where
  "supervision_kept s s' =
     (terminated s' = terminated s \<and> return_app_code s' = return_app_code s
      \<and> (display_run s' \<longrightarrow> display_run s)
      \<and> (\<forall>p. Waitpid p \<in> set (calls s') \<longrightarrow> Waitpid p \<in> set (calls s)))"

definition supervision_grew :: "gf_server \<Rightarrow> gf_server \<Rightarrow> bool" where
  "supervision_grew s s' =
     (terminated s' = terminated s \<and> (return_app_code s \<longrightarrow> return_app_code s')
      \<and> (display_run s' \<longrightarrow> display_run s))"

text \<open>
  A start in which every set-up step succeeds for an unprivileged user; the client is
  forked with pid 4242, a key is pressed, then the liveness pipe (descriptors 5 and 6)
  reports a hang-up (\<open>WL_EVENT_HANGUP\<close> is 4) and \<open>waitpid\<close> stores the status
  of a normal exit with status 3.
\<close>

definition example_startup :: startup where
  "example_startup =
     \<lparr>parse_args = Options True GAMEFRAME_MULTI_OUTPUT_MODE_EXTEND,
      xdg_runtime_dir_set = True, display_created = True, backend_created = True,
      backend_multi = True, backend_session = Some 1,
      creds = \<lparr>uid = 1000, gid = 1000, euid = 1000, egid = 1000,
               setgid_own = 0, setuid_own = 0, setgid_root = - 1, setuid_root = - 1\<rparr>,
      gles2_renderer_created = True, renderer_autocreated = False,
      allocator_created = True, output_layout_created = True, scene_created = True,
      compositor_created = True, subcompositor_created = True,
      data_device_manager_created = True, primary_selection_created = True,
      seat_created = True, socket_added = True, backend_started = True,
      application_given = True,
      spawn = \<lparr>pipe_ok = True, pipe_read_fd = 5, pipe_write_fd = 6, fork_pid = 4242,
               cloexec_read_ok = True, cloexec_write_ok = True\<rparr>,
      wlr_has_x11_backend = False,
      loop_events =
        [[Keyboard_key 0 [0x61]
            \<lparr>time_msec = 7, keycode = 30, key_state = WL_KEYBOARD_KEY_STATE_PRESSED\<rparr>],
         [Liveness 5 4]],
      child_status =
        \<lparr>waitpid_ok = True, client_status = W_EXITCODE 3 0, uninitialised_status = 0\<rparr>\<rparr>"

text \<open>
  The same start interrupted by SIGINT before the client exits; the same start by the
  super-user; and the same start from a set-uid binary whose saved ids let it regain
  root after the drop (\<open>setgid(0)\<close> answers 0).
\<close>

definition sigint_startup :: startup where
  "sigint_startup = example_startup\<lparr>loop_events := [[Signal 2]]\<rparr>"

definition root_startup :: startup where
  "root_startup =
     example_startup
       \<lparr>creds := \<lparr>uid = 0, gid = 0, euid = 0, egid = 0,
                  setgid_own = 0, setuid_own = 0, setgid_root = 0, setuid_root = 0\<rparr>\<rparr>"

definition setuid_startup :: startup where
  "setuid_startup =
     example_startup
       \<lparr>creds := \<lparr>uid = 1000, gid = 1000, euid = 0, egid = 1000,
                  setgid_own = 0, setuid_own = 0, setgid_root = 0, setuid_root = - 1\<rparr>\<rparr>"

text \<open>
  The start of the example in a process that ignores \<open>SIGCHLD\<close>: the client exits
  with status 3 as before, the kernel keeps no status for it, \<open>waitpid\<close> fails with
  \<open>ECHILD\<close> and stores nothing, and the variable \<open>status\<close> holds the 2 an earlier
  call left in its stack slot. And the start of the example with a client that creates
  an idle inhibitor before it exits.
\<close>

definition ignored_sigchld_startup :: startup where
  "ignored_sigchld_startup =
     example_startup
       \<lparr>child_status :=
          \<lparr>waitpid_ok = False, client_status = W_EXITCODE 3 0, uninitialised_status = 2\<rparr>\<rparr>"

definition inhibitor_startup :: startup where
  "inhibitor_startup =
     example_startup\<lparr>loop_events := [[New_idle_inhibitor True 7], [Liveness 5 4]]\<rparr>"

section \<open>Notions used to state the properties of the handlers\<close>

text \<open>
  \<open>new_calls s s'\<close> are the calls a handler added when it took the server from
  \<open>s\<close> to \<open>s'\<close>. \<open>key_forwarded\<close>: the key event reached the client, that is
  \<open>handle_key_event\<close> called \<open>wlr_seat_keyboard_notify_key\<close> for it.
  \<open>bound_action\<close>: the symbol is one \<open>handle_keybinding\<close> acts on.
\<close>

definition new_calls :: "gf_server \<Rightarrow> gf_server \<Rightarrow> call list" where
  "new_calls s s' = drop (length (calls s)) (calls s')"

definition key_forwarded ::
  "32 word \<Rightarrow> 32 word list \<Rightarrow> wlr_keyboard_key_event \<Rightarrow> gf_server \<Rightarrow> bool" where
  "key_forwarded modifiers syms event server =
     (Wlr_seat_keyboard_notify_key (time_msec event) (keycode event) (key_state event)
        \<in> set (new_calls server (handle_key_event modifiers syms event server)))"

definition bound_action :: "gf_server \<Rightarrow> 32 word \<Rightarrow> bool" where
  "bound_action server keysym =
     (keysym = XKB_KEY_Escape
      \<or> (allow_vt_switch server \<and> XKB_KEY_XF86Switch_VT_1 \<le> keysym
          \<and> keysym \<le> XKB_KEY_XF86Switch_VT_12))"

text \<open>
  The state of the idle notifier: the flag of the last
  \<open>wlr_idle_notifier_v1_set_inhibited\<close> call, not inhibited before the first.
\<close>

definition idle_inhibited :: "gf_server \<Rightarrow> bool" where
  "idle_inhibited server =
     foldl (\<lambda>b c. case c of Wlr_idle_notifier_v1_set_inhibited v \<Rightarrow> v | _ \<Rightarrow> b)
       False (calls server)"

text \<open>
  A relation between the server before and after a step: the step left
  \<open>server->inhibitors\<close> as it was and called
  \<open>wlr_idle_notifier_v1_set_inhibited\<close> with no flag.
\<close>

definition inhibition_untouched :: "gf_server \<Rightarrow> gf_server \<Rightarrow> bool" where
  "inhibition_untouched s s' =
     (inhibitors s' = inhibitors s
      \<and> (\<forall>v. Wlr_idle_notifier_v1_set_inhibited v \<in> set (calls s') \<longrightarrow>
             Wlr_idle_notifier_v1_set_inhibited v \<in> set (calls s)))"

text \<open>
  A running server with VT switching allowed on a backend that is not a multi backend,
  and one with VT switching allowed on a multi backend with a session.
\<close>

definition nested_server :: gf_server where
  "nested_server =
     \<lparr>terminated = False, display_run = True, return_app_code = False,
      allow_vt_switch = True, output_mode = GAMEFRAME_MULTI_OUTPUT_MODE_LAST,
      backend_is_multi = False, session = None,
      outputs = [], output_layout = [], inhibitors = Wl_list_zeroed, calls = []\<rparr>"

definition drm_server :: gf_server where
  "drm_server = nested_server\<lparr>backend_is_multi := True, session := Some 1\<rparr>"

text \<open>
  Three nested outputs A, B and C as the backend announces them, the answers of a
  hotplug in which every step succeeds, and the server after A, B and C were added in
  this order under the \<open>last\<close> mode.
\<close>

definition output_A :: gf_output where
  "output_A = \<lparr>wlr_output = 1, is_wl = True, is_x11 = False, enabled = False, scene_output = None\<rparr>"

definition output_B :: gf_output where
  "output_B = \<lparr>wlr_output = 2, is_wl = True, is_x11 = False, enabled = False, scene_output = None\<rparr>"

definition output_C :: gf_output where
  "output_C = \<lparr>wlr_output = 3, is_wl = True, is_x11 = False, enabled = False, scene_output = None\<rparr>"

definition hotplug_ok :: "nat \<Rightarrow> new_output_answers" where
  "hotplug_ok so =
     \<lparr>init_render_ok = True, output_alloc_ok = True, scene_output_created = Some so,
      first_commit_ok = True\<rparr>"

definition added :: "gf_output \<Rightarrow> nat \<Rightarrow> gf_output" where
  "added raw so = raw\<lparr>enabled := True, scene_output := Some so\<rparr>"

definition server_ABC :: gf_server where
  "server_ABC =
     nested_server
       \<lparr>outputs := [added output_C 13, added output_B 12, added output_A 11],
        output_layout := [1, 2, 3]\<rparr>"

text \<open>
  The answers of a hotplug in which \<open>wlr_scene_output_create\<close> fails, and the server
  after A, B and C were added in this order when it failed for B: B is in the list as
  the handler left it at its early return, without a scene output and not enabled.
\<close>

definition hotplug_no_scene_output :: new_output_answers where
  "hotplug_no_scene_output =
     \<lparr>init_render_ok = True, output_alloc_ok = True, scene_output_created = None,
      first_commit_ok = True\<rparr>"

definition server_ABC_no_scene_B :: gf_server where
  "server_ABC_no_scene_B =
     nested_server
       \<lparr>outputs := [added output_C 13, output_B, added output_A 11],
        output_layout := [1, 3]\<rparr>"

text \<open>
  A configuration that builds and passes the swapchain test, and whose commit the
  backend then refuses.
\<close>

definition refused_configuration :: wlr_output_configuration_v1 where
  "refused_configuration =
     \<lparr>build_state = Some [\<lparr>state_output_data = Some (added output_A 11), scene_build_ok = True\<rparr>],
      prepare_ok = True, backend_commit_ok = False\<rparr>"



text \<open>
  An application window and a dialog of it, both xdg-shell views: the toplevel of the
  dialog (address 20) has the toplevel of the window (address 10) as its parent. A seat
  with a keyboard on which the window was given the focus, and the same seat after the
  dialog was given the focus in its turn.
\<close>

definition window_view :: gf_view where
  "window_view =
     \<lparr>view_address = 1, view_type = GAMEFRAME_XDG_SHELL_VIEW, native = Some 10,
      wlr_surface = Some 100\<rparr>"

definition dialog_view :: gf_view where
  "dialog_view =
     \<lparr>view_address = 2, view_type = GAMEFRAME_XDG_SHELL_VIEW, native = Some 20,
      wlr_surface = Some 200\<rparr>"

definition dialog_heap :: view_heap where
  "dialog_heap =
     \<lparr>xdg_toplevel_parent = (\<lambda>t. if t = 20 then Some 10 else None),
      xwayland_surface_parent = (\<lambda>t. None),
      surface_view = (\<lambda>sf. if sf = 100 then Some window_view
                            else if sf = 200 then Some dialog_view else None)\<rparr>"

definition seat_on_window :: gf_seat where
  "seat_on_window = seat_set_focus (seat_create\<lparr>seat_keyboard := True\<rparr>) window_view"


text \<open>
  Two X11 windows as xwayland views: the surface of the second (address 40) has the
  surface of the first (address 30) as its parent. A seat with a keyboard on which the
  first and then the second was given the focus.
\<close>

definition x11_window_view :: gf_view where
  "x11_window_view =
     \<lparr>view_address = 3, view_type = GAMEFRAME_XWAYLAND_VIEW, native = Some 30,
      wlr_surface = Some 300\<rparr>"

definition x11_dialog_view :: gf_view where
  "x11_dialog_view =
     \<lparr>view_address = 4, view_type = GAMEFRAME_XWAYLAND_VIEW, native = Some 40,
      wlr_surface = Some 400\<rparr>"

definition x11_heap :: view_heap where
  "x11_heap =
     \<lparr>xdg_toplevel_parent = (\<lambda>t. None),
      xwayland_surface_parent = (\<lambda>t. if t = 40 then Some 30 else None),
      surface_view = (\<lambda>sf. if sf = 300 then Some x11_window_view
                            else if sf = 400 then Some x11_dialog_view else None)\<rparr>"

definition seat_on_x11_dialog :: gf_seat where
  "seat_on_x11_dialog =
     seat_set_focus (seat_set_focus (seat_create\<lparr>seat_keyboard := True\<rparr>) x11_window_view)
       x11_dialog_view"

text \<open>
  A keyboard, a pointer and the answers of a hotplug in which every allocation
  succeeds and a group accepts a keyboard with its own keymap.
\<close>

definition keyboard_device :: wlr_input_device where
  "keyboard_device =
     \<lparr>device = 50, device_type = WLR_INPUT_DEVICE_KEYBOARD, keymap = 1, output_name = None\<rparr>"

definition pointer_device :: wlr_input_device where
  "pointer_device =
     \<lparr>device = 60, device_type = WLR_INPUT_DEVICE_POINTER, keymap = 0, output_name = None\<rparr>"

definition keyboard_ok :: keyboard_answers where
  "keyboard_ok =
     \<lparr>accepts = (\<lambda>g k. group_keymap g = keymap k), group_alloc_ok = True,
      group_create_ok = True, new_address = 70\<rparr>"

text \<open>
  The capability set the device lists determine, and the cursor image that goes with
  it; \<open>capabilities_derived\<close> says that the seat holds exactly these.
\<close>

definition capabilities_of :: "gf_seat \<Rightarrow> 32 word" where
  "capabilities_of seat =
     (if keyboard_groups seat \<noteq> [] then WL_SEAT_CAPABILITY_KEYBOARD else 0)
     OR (if pointers seat \<noteq> [] then WL_SEAT_CAPABILITY_POINTER else 0)
     OR (if touch seat \<noteq> [] then WL_SEAT_CAPABILITY_TOUCH else 0)"

definition capabilities_derived :: "gf_seat \<Rightarrow> bool" where
  "capabilities_derived seat =
     (capabilities seat = capabilities_of seat
      \<and> cursor_image seat =
          (if pointers seat = [] then Cursor_unset else Cursor_default_xcursor))"

chapter \<open>Properties\<close>

section \<open>Process supervisor: exit code and privileges\<close>

text \<open>
  After a successful set-up \<open>main\<close> is the spawn, the loop and the return.
\<close>

lemma main_after_setup:
  assumes "setup_succeeds env" "parse_args env = Options vt mode"
  shows "main env = run_client env (initial_server vt mode env)"
  using assms by (auto simp add: setup_succeeds_def main_def)

lemma do_call_fields [simp]:
  "terminated (do_call c s) = terminated s"
  "return_app_code (do_call c s) = return_app_code s"
  "display_run (do_call c s) = display_run s"
  "calls (do_call c s) = calls s @ [c]"
  "outputs (do_call c s) = outputs s"
  "inhibitors (do_call c s) = inhibitors s"
  "output_mode (do_call c s) = output_mode s"
  "output_layout (do_call c s) = output_layout s"
  "allow_vt_switch (do_call c s) = allow_vt_switch s"
  "backend_is_multi (do_call c s) = backend_is_multi s"
  "session (do_call c s) = session s"
  by (simp_all add: do_call_def)


text \<open>
  No handler other than \<open>sigchld_handler\<close> touches \<open>return_app_code\<close>, none
  touches \<open>terminated\<close>, none sets the run flag, and none calls \<open>waitpid\<close>.
\<close>

lemma kept_refl [simp]: "supervision_kept s s"
  by (simp add: supervision_kept_def)

lemma kept_trans:
  "supervision_kept a b \<Longrightarrow> supervision_kept b c \<Longrightarrow> supervision_kept a c"
  by (auto simp: supervision_kept_def)

lemma kept_server_terminate: "supervision_kept s (server_terminate s)"
  by (auto simp: supervision_kept_def server_terminate_def)

lemma kept_handle_signal: "supervision_kept s (handle_signal n s)"
  by (simp add: handle_signal_def kept_server_terminate)

lemma kept_handle_keybinding: "supervision_kept s (snd (handle_keybinding s k))"
  by (auto simp: handle_keybinding_def kept_server_terminate) (auto simp: supervision_kept_def)

lemma kept_fold_keybinding:
  "supervision_kept s0 (snd acc) \<Longrightarrow>
     supervision_kept s0 (snd (foldl (\<lambda>(h, s) keysym. handle_keybinding s keysym) acc syms))"
proof (induction syms arbitrary: acc)
  case Nil then show ?case by simp
next
  case (Cons k ks)
  obtain h s where acc: "acc = (h, s)" by (cases acc)
  have "supervision_kept s0 (snd (handle_keybinding s k))"
    using Cons.prems kept_handle_keybinding[of s k] acc by (auto intro: kept_trans)
  from Cons.IH[OF this] show ?case by (simp add: acc)
qed

lemma kept_handle_key_event: "supervision_kept s (handle_key_event mods syms ev s)"
proof -
  have f: "supervision_kept s
             (snd (foldl (\<lambda>(h, s) keysym. handle_keybinding s keysym) (False, s) syms))"
    by (rule kept_fold_keybinding) simp
  show ?thesis
    using f unfolding handle_key_event_def
    by (auto simp: supervision_kept_def Let_def split: prod.splits if_splits)
qed

lemma kept_update_output_manager_config: "supervision_kept s (update_output_manager_config s)"
  by (simp add: update_output_manager_config_def supervision_kept_def)

lemma kept_output_layout_remove: "supervision_kept s (output_layout_remove out s)"
  by (simp add: output_layout_remove_def supervision_kept_def)

lemma kept_wlr_output_commit_state: "supervision_kept s (wlr_output_commit_state c n v s)"
  by (simp add: wlr_output_commit_state_def supervision_kept_def)

lemma kept_output_layout_add_auto: "output_layout_add_auto out s = Inr s' \<Longrightarrow> supervision_kept s s'"
  by (auto simp: output_layout_add_auto_def supervision_kept_def split: option.splits)

lemma kept_output_enable: "output_enable c out s = Inr s' \<Longrightarrow> supervision_kept s s'"
  unfolding output_enable_def Let_def
  by (auto split: if_splits sum.splits
      intro: kept_trans[OF kept_wlr_output_commit_state]
             kept_trans[OF kept_output_layout_add_auto kept_update_output_manager_config]
             kept_update_output_manager_config)

lemma kept_outputs_update: "supervision_kept s (s\<lparr>outputs := x\<rparr>)"
  by (simp add: supervision_kept_def)

lemma kept_output_destroy:
  assumes "output_destroy x11 c out s = Inr s'"
  shows "supervision_kept s s'"
proof -
  define s2 where "s2 = output_layout_remove out (s\<lparr>outputs := remove1 out (outputs s)\<rparr>)"
  have k2: "supervision_kept s s2"
    unfolding s2_def by (rule kept_trans[OF kept_outputs_update kept_output_layout_remove])
  have "s' = server_terminate s2 \<or> s' = s2
        \<or> (\<exists>s3. output_enable c (hd (outputs s2)) s2 = Inr s3 \<and> s' = do_call View_position_all s3)"
    using assms unfolding output_destroy_def Let_def s2_def[symmetric]
    by (auto split: if_splits sum.splits)
  then show ?thesis
  proof (elim disjE exE conjE)
    assume "s' = server_terminate s2"
    then show ?thesis using k2 kept_server_terminate kept_trans by blast
  next
    assume "s' = s2"
    then show ?thesis using k2 by simp
  next
    fix s3 assume e: "output_enable c (hd (outputs s2)) s2 = Inr s3" and s': "s' = do_call View_position_all s3"
    have "supervision_kept s3 s'" unfolding s' by (simp add: supervision_kept_def)
    then show ?thesis using k2 kept_output_enable[OF e] kept_trans by blast
  qed
qed

lemma kept_handle_new_output:
  assumes "handle_new_output a raw s = Inr s'"
  shows "supervision_kept s s'"
proof -
  define out where "out = raw\<lparr>scene_output := scene_output_created a\<rparr>"
  define s1 where "s1 = s\<lparr>outputs := out # outputs s\<rparr>"
  define s2 where "s2 = wlr_output_commit_state (first_commit_ok a) (wlr_output out) True s1"
  have k1: "supervision_kept s s1" unfolding s1_def by (rule kept_outputs_update)
  have k2: "supervision_kept s s2" unfolding s2_def using k1 kept_wlr_output_commit_state kept_trans by blast
  have "s' = s \<or> s' = s1
        \<or> (\<exists>s3. (s3 = s2 \<or> output_layout_add_auto out s2 = Inr s3)
               \<and> s' = update_output_manager_config (do_call View_position_all s3))"
    using assms unfolding handle_new_output_def Let_def out_def[symmetric] s1_def[symmetric] s2_def[symmetric]
    by (auto split: if_splits sum.splits)
  then show ?thesis
  proof (elim disjE exE conjE)
    fix s3 assume s': "s' = update_output_manager_config (do_call View_position_all s3)" and "s3 = s2"
    have "supervision_kept s3 s'" unfolding s' by (simp add: supervision_kept_def update_output_manager_config_def)
    then show ?thesis using k2 \<open>s3 = s2\<close> kept_trans by blast
  next
    fix s3 assume s': "s' = update_output_manager_config (do_call View_position_all s3)"
      and a: "output_layout_add_auto out s2 = Inr s3"
    have "supervision_kept s3 s'" unfolding s' by (simp add: supervision_kept_def update_output_manager_config_def)
    then show ?thesis using k2 kept_output_layout_add_auto[OF a] kept_trans by blast
  qed (use k1 in simp_all)
qed

lemma kept_build_scene_states:
  "build_scene_states sts s = Inr (b, s') \<Longrightarrow> supervision_kept s s'"
proof (induction sts arbitrary: s)
  case Nil then show ?case by simp
next
  case (Cons st sts)
  from Cons.prems obtain out where out: "state_output_data st = Some out"
    by (auto split: option.splits)
  define s1 where "s1 = do_call (Wlr_scene_output_build_state (wlr_output out)) s"
  have k1: "supervision_kept s s1" by (simp add: s1_def supervision_kept_def)
  from Cons.prems out have "s' = s1 \<or> build_scene_states sts s1 = Inr (b, s')"
    by (auto simp: Let_def s1_def split: if_splits)
  then show ?case
    using k1 Cons.IH[of s1] kept_trans by blast
qed

lemma kept_output_config_apply:
  "output_config_apply cfg t s = Inr (b, s') \<Longrightarrow> supervision_kept s s'"
  unfolding output_config_apply_def Let_def
  by (auto split: option.splits if_splits sum.splits prod.splits
      dest!: kept_build_scene_states simp: supervision_kept_def)

lemma kept_handle_output_manager_apply:
  "handle_output_manager_apply cfg s = Inr s' \<Longrightarrow> supervision_kept s s'"
  unfolding handle_output_manager_apply_def
  by (auto split: sum.splits prod.splits dest!: kept_output_config_apply simp: supervision_kept_def)

lemma kept_handle_output_manager_test:
  "handle_output_manager_test cfg s = Inr s' \<Longrightarrow> supervision_kept s s'"
  unfolding handle_output_manager_test_def
  by (auto split: sum.splits prod.splits dest!: kept_output_config_apply simp: supervision_kept_def)

lemma kept_handle_destroy: "supervision_kept s (handle_destroy i s)"
  by (simp add: handle_destroy_def idle_inhibit_v1_check_active_def supervision_kept_def)

lemma kept_handle_idle_inhibitor_v1_new:
  "handle_idle_inhibitor_v1_new ok i s = Inr s' \<Longrightarrow> supervision_kept s s'"
  by (auto simp: handle_idle_inhibitor_v1_new_def idle_inhibit_v1_check_active_def
      supervision_kept_def split: if_splits sum.splits)

lemma kept_dispatch_event:
  assumes "dispatch_event x11 e s = Inr s'" "\<not> is_liveness e"
  shows "supervision_kept s s'"
  using assms
  by (cases e)
     (auto simp: kept_handle_signal kept_handle_key_event kept_handle_destroy
        intro: kept_handle_new_output kept_output_destroy kept_handle_output_manager_apply
               kept_handle_output_manager_test kept_handle_idle_inhibitor_v1_new
        split: option.splits)

lemma kept_dispatch_events:
  assumes "dispatch_events x11 es s = Inr s'" "\<forall>e\<in>set es. \<not> is_liveness e"
  shows "supervision_kept s s'"
  using assms
proof (induction es arbitrary: s)
  case Nil then show ?case by simp
next
  case (Cons e es)
  then show ?case
    by (auto split: sum.splits intro: kept_trans dest: kept_dispatch_event)
qed

text \<open>
  \<open>sigchld_handler\<close> sets \<open>return_app_code\<close> and, on a display that is not
  destroyed, clears the run flag; no handler sets the flag again or clears
  \<open>return_app_code\<close>.
\<close>

lemma kept_grew: "supervision_kept s s' \<Longrightarrow> supervision_grew s s'" by (simp add: supervision_kept_def supervision_grew_def)

lemma grew_trans: "supervision_grew a b \<Longrightarrow> supervision_grew b c \<Longrightarrow> supervision_grew a c" by (auto simp: supervision_grew_def)

lemma sigchld_handler_effect:
  "return_app_code (sigchld_handler fd m s)"
  "terminated (sigchld_handler fd m s) = terminated s"
  "\<not> terminated s \<Longrightarrow> \<not> display_run (sigchld_handler fd m s)"
  "display_run (sigchld_handler fd m s) \<Longrightarrow> display_run s"
  by (auto simp add: sigchld_handler_def server_terminate_def split: if_splits)

lemma grew_dispatch_event: "dispatch_event x11 e s = Inr s' \<Longrightarrow> supervision_grew s s'"
proof (cases "is_liveness e")
  case True
  assume d: "dispatch_event x11 e s = Inr s'"
  from True obtain fd m where "e = Liveness fd m" by (cases e) auto
  with d show ?thesis by (auto simp: supervision_grew_def sigchld_handler_effect)
next
  case False
  assume "dispatch_event x11 e s = Inr s'"
  then show ?thesis using False kept_dispatch_event kept_grew by blast
qed

lemma grew_dispatch_events: "dispatch_events x11 es s = Inr s' \<Longrightarrow> supervision_grew s s'"
proof (induction es arbitrary: s)
  case Nil then show ?case by (simp add: supervision_grew_def)
next
  case (Cons e es)
  then show ?case by (auto split: sum.splits intro: grew_trans dest: grew_dispatch_event)
qed

text \<open>
  The loop and the liveness source: if it fired while the loop ran, the loop has
  returned (or a handler aborted) with \<open>return_app_code\<close> set; if it did not, the
  loop returns with the flag as it was and without a \<open>waitpid\<close> call. A loop that
  receives SIGINT or SIGTERM returns.
\<close>

lemma handled_all: "dispatch_events x11 es s = Inr s' \<Longrightarrow> handled x11 es s = es"
  by (induction es arbitrary: s) (auto split: sum.splits)

lemma liveness_in_batch:
  assumes "dispatch_events x11 es s = Inr s'" "\<exists>e\<in>set es. is_liveness e"
  shows "return_app_code s' \<and> (\<not> terminated s \<longrightarrow> \<not> display_run s')"
  using assms
proof (induction es arbitrary: s)
  case Nil then show ?case by simp
next
  case (Cons e es)
  from Cons.prems(1) obtain s1 where s1: "dispatch_event x11 e s = Inr s1"
    and rest: "dispatch_events x11 es s1 = Inr s'" by (auto split: sum.splits)
  have g1: "supervision_grew s s1" by (rule grew_dispatch_event[OF s1])
  have g2: "supervision_grew s1 s'" by (rule grew_dispatch_events[OF rest])
  show ?case
  proof (cases "is_liveness e")
    case True
    then obtain fd m where "e = Liveness fd m" by (cases e) auto
    with s1 have "return_app_code s1" "\<not> terminated s \<longrightarrow> \<not> display_run s1"
      by (auto simp: sigchld_handler_effect)
    with g2 show ?thesis by (auto simp: supervision_grew_def)
  next
    case False
    with Cons.prems(2) have "\<exists>e\<in>set es. is_liveness e" by auto
    from Cons.IH[OF rest this] g1 show ?thesis by (auto simp: supervision_grew_def)
  qed
qed

lemma loop_liveness:
  assumes "\<exists>e\<in>set (delivered x11 bs s). is_liveness e" "\<not> terminated s"
  shows "(\<exists>err. display_loop x11 bs s = Some (Inl err))
       \<or> (\<exists>s'. display_loop x11 bs s = Some (Inr s') \<and> return_app_code s')"
  using assms
proof (induction bs arbitrary: s)
  case Nil then show ?case by simp
next
  case (Cons b bs)
  show ?case
  proof (cases "dispatch_events x11 b s")
    case (Inl err) then show ?thesis by simp
  next
    case (Inr s1)
    have g: "supervision_grew s s1" by (rule grew_dispatch_events[OF Inr])
    have hb: "handled x11 b s = b" by (rule handled_all[OF Inr])
    show ?thesis
    proof (cases "\<exists>e\<in>set b. is_liveness e")
      case True
      from liveness_in_batch[OF Inr True] Cons.prems(2) show ?thesis using Inr by simp
    next
      case False
      show ?thesis
      proof (cases "display_run s1")
        case True
        with Cons.prems(1) False Inr hb have "\<exists>e\<in>set (delivered x11 bs s1). is_liveness e" by auto
        moreover have "\<not> terminated s1" using g Cons.prems(2) by (simp add: supervision_grew_def)
        ultimately show ?thesis using Cons.IH[of s1] Inr True by simp
      next
        case f: False
        with Cons.prems(1) False Inr hb show ?thesis by auto
      qed
    qed
  qed
qed

lemma loop_no_liveness:
  assumes "display_loop x11 bs s = Some (Inr s')" "\<forall>e\<in>set (delivered x11 bs s). \<not> is_liveness e"
  shows "supervision_kept s s'"
  using assms
proof (induction bs arbitrary: s)
  case Nil then show ?case by simp
next
  case (Cons b bs)
  from Cons.prems(1) obtain s1 where s1: "dispatch_events x11 b s = Inr s1"
    by (auto split: sum.splits)
  have hb: "handled x11 b s = b" by (rule handled_all[OF s1])
  from Cons.prems(2) s1 hb have nb: "\<forall>e\<in>set b. \<not> is_liveness e" by auto
  have k1: "supervision_kept s s1" by (rule kept_dispatch_events[OF s1 nb])
  show ?case
  proof (cases "display_run s1")
    case True
    with Cons.prems s1 hb have "display_loop x11 bs s1 = Some (Inr s')"
      "\<forall>e\<in>set (delivered x11 bs s1). \<not> is_liveness e" by auto
    from Cons.IH[OF this] k1 show ?thesis using kept_trans by blast
  next
    case False
    with Cons.prems(1) s1 have "s' = s1" by simp
    with k1 show ?thesis by simp
  qed
qed

lemma stopper_in_batch:
  assumes "dispatch_events x11 es s = Inr s'" "Signal SIGINT \<in> set es \<or> Signal SIGTERM \<in> set es"
    "\<not> terminated s"
  shows "\<not> display_run s'"
  using assms
proof (induction es arbitrary: s)
  case Nil then show ?case by simp
next
  case (Cons e es)
  from Cons.prems(1) obtain s1 where s1: "dispatch_event x11 e s = Inr s1"
    and rest: "dispatch_events x11 es s1 = Inr s'" by (auto split: sum.splits)
  have g1: "supervision_grew s s1" by (rule grew_dispatch_event[OF s1])
  have g2: "supervision_grew s1 s'" by (rule grew_dispatch_events[OF rest])
  show ?case
  proof (cases "e = Signal SIGINT \<or> e = Signal SIGTERM")
    case True
    with s1 Cons.prems(3) have "\<not> display_run s1"
      by (auto simp: handle_signal_def server_terminate_def)
    with g2 show ?thesis by (auto simp: supervision_grew_def)
  next
    case False
    with Cons.prems(2) have "Signal SIGINT \<in> set es \<or> Signal SIGTERM \<in> set es" by auto
    moreover have "\<not> terminated s1" using g1 Cons.prems(3) by (simp add: supervision_grew_def)
    ultimately show ?thesis using Cons.IH[OF rest] by simp
  qed
qed

lemma loop_stops:
  assumes "\<exists>ready\<in>set bs. Signal SIGINT \<in> set ready \<or> Signal SIGTERM \<in> set ready" "\<not> terminated s"
  shows "display_loop x11 bs s \<noteq> None"
  using assms
proof (induction bs arbitrary: s)
  case Nil then show ?case by simp
next
  case (Cons b bs)
  show ?case
  proof (cases "dispatch_events x11 b s")
    case (Inl err) then show ?thesis by simp
  next
    case (Inr s1)
    have g: "supervision_grew s s1" by (rule grew_dispatch_events[OF Inr])
    show ?thesis
    proof (cases "display_run s1")
      case True
      have "\<not> (Signal SIGINT \<in> set b \<or> Signal SIGTERM \<in> set b)"
        using stopper_in_batch[OF Inr _ Cons.prems(2)] True by blast
      with Cons.prems(1) have "\<exists>ready\<in>set bs. Signal SIGINT \<in> set ready \<or> Signal SIGTERM \<in> set ready"
        by auto
      moreover have "\<not> terminated s1" using g Cons.prems(2) by (simp add: supervision_grew_def)
      ultimately show ?thesis using Cons.IH[of s1] Inr True by simp
    next
      case False then show ?thesis using Inr by simp
    qed
  qed
qed

lemma loop_start_fields:
  "\<not> terminated (loop_start vt mode env)"
  "\<not> return_app_code (loop_start vt mode env)"
  "Waitpid p \<notin> set (calls (loop_start vt mode env))"
  by (simp_all add: loop_start_def spawn_primary_client_def initial_server_def)

lemma run_client_unfold:
  "run_client env (initial_server vt mode env) =
     (let r = spawn_primary_client (spawn env) (initial_server vt mode env)
      in if \<not> spawned r then Some (Inr (1, calls (spawn_server r)))
         else
           (case display_loop (wlr_has_x11_backend env) (loop_events env) (loop_start vt mode env) of
              None \<Rightarrow> None
            | Some (Inl err) \<Rightarrow> Some (Inl err)
            | Some (Inr server1) \<Rightarrow>
                if return_app_code server1
                then Some (Inr (cleanup_primary_client (child_status env),
                                calls server1 @ [Waitpid (pid_out r)]))
                else Some (Inr (0, calls server1))))"
  by (simp add: run_client_def wl_display_run_def loop_start_def Let_def)

text \<open>
  The wait macros on the status of a client that exited with \<open>n\<close>, and the form of
  the statuses for which \<open>WIFSIGNALED\<close> holds.
\<close>

lemma and_0x7f: "(k::int) AND 0x7f = k mod 128"
proof -
  have m: "mask 7 = (0x7f::int)" by (simp add: mask_eq_exp_minus_1)
  have "k AND mask 7 = take_bit 7 k" by (rule take_bit_eq_mask[symmetric])
  also have "\<dots> = k mod 2 ^ 7" by (rule take_bit_eq_mod)
  finally show ?thesis unfolding m by simp
qed

lemma wait_status_exited:
  assumes "0 \<le> n" "n < 256"
  shows "WIFEXITED (W_EXITCODE n 0) \<and> WEXITSTATUS (W_EXITCODE n 0) = n"
proof -
  have a: "n * 256 mod 128 = 0" by simp
  have m: "push_bit 8 (mask 8) = (0xff00::int)"
    by (simp add: mask_eq_exp_minus_1 push_bit_eq_mult)
  have p: "push_bit 8 n = n * 256" by (simp add: push_bit_eq_mult)
  have "push_bit 8 n AND push_bit 8 (mask 8) = push_bit 8 (n AND mask 8)"
    by (simp only: push_bit_and)
  also have "n AND mask 8 = take_bit 8 n" by (rule take_bit_eq_mask[symmetric])
  also have "take_bit 8 n = n" using assms by (simp add: take_bit_int_eq_self)
  finally have "n * 256 AND 0xff00 = n * 256" unfolding m p .
  then have b: "drop_bit 8 (n * 256 AND 0xff00) = n" by (simp add: drop_bit_eq_div)
  show ?thesis
    using a b by (simp add: W_EXITCODE_def WIFEXITED_def WTERMSIG_def WEXITSTATUS_def and_0x7f)
qed

lemma wait_status_signaled:
  "WIFSIGNALED status \<longleftrightarrow> 1 \<le> status mod 128 \<and> status mod 128 \<le> 126"
proof -
  define x where "x = status mod 128"
  have r: "0 \<le> x" "x < 128" by (simp_all add: x_def)
  have "signed_take_bit 7 (x + 1) = (if x = 127 then - 128 else x + 1)"
  proof (cases "x = 127")
    case True then show ?thesis by simp
  next
    case False
    with r have "x + 1 < 128" "0 \<le> x + 1" by auto
    then have "signed_take_bit 7 (x + 1) = x + 1"
      by (intro signed_take_bit_int_eq_self) auto
    with False show ?thesis by simp
  qed
  then show ?thesis using r
    by (auto simp: WIFSIGNALED_def and_0x7f x_def[symmetric] drop_bit_eq_div)
qed

text \<open>
  What \<open>cleanup_primary_client\<close> returns when \<open>waitpid\<close> has stored the status of
  the client: the exit status \<open>n\<close> of a client that exited, 128 plus the signal for a
  client that a signal ended (with or without the core-dump flag \<open>0x80\<close>), and 0 for
  a status of any other form.
\<close>

lemma cleanup_primary_client_waited:
  assumes "waitpid_ok w"
  shows "0 \<le> n \<Longrightarrow> n < 256 \<Longrightarrow> client_status w = W_EXITCODE n 0 \<Longrightarrow>
           cleanup_primary_client w = n"
    and "1 \<le> k \<Longrightarrow> k \<le> 126 \<Longrightarrow>
           client_status w = W_EXITCODE 0 k \<or> client_status w = W_EXITCODE 0 k + 128 \<Longrightarrow>
           cleanup_primary_client w = 128 + k"
    and "\<not> WIFEXITED (client_status w) \<Longrightarrow> \<not> WIFSIGNALED (client_status w) \<Longrightarrow>
           cleanup_primary_client w = 0"
proof -
  show "cleanup_primary_client w = n"
    if "0 \<le> n" "n < 256" "client_status w = W_EXITCODE n 0"
    using wait_status_exited[OF that(1,2)] that(3) assms
    by (simp add: cleanup_primary_client_def)
  show "cleanup_primary_client w = 128 + k"
    if k: "1 \<le> k" "k \<le> 126"
      and st: "client_status w = W_EXITCODE 0 k \<or> client_status w = W_EXITCODE 0 k + 128"
  proof -
    from st k have m: "client_status w mod 128 = k"
      by (auto simp: W_EXITCODE_def)
    then have "\<not> WIFEXITED (client_status w)" "WIFSIGNALED (client_status w)"
      "WTERMSIG (client_status w) = k"
      using k by (simp_all add: WIFEXITED_def WTERMSIG_def and_0x7f wait_status_signaled)
    then show ?thesis using assms by (simp add: cleanup_primary_client_def)
  qed
  show "cleanup_primary_client w = 0"
    if "\<not> WIFEXITED (client_status w)" "\<not> WIFSIGNALED (client_status w)"
    using that assms by (simp add: cleanup_primary_client_def)
qed

text \<open>
  The exit code of \<open>main\<close> when every set-up step succeeds: 1 when the spawn fails
  at \<open>pipe\<close> or \<open>fork\<close>; and, when the client was spawned, its exit is reported
  on the liveness pipe while the loop runs and no handler aborts the process, what
  \<open>cleanup_primary_client\<close> returns.
\<close>

lemma exit_code_after_liveness:
  assumes "setup_succeeds env" and "parse_args env = Options vt mode"
  shows "(\<not> pipe_ok (spawn env) \<or> fork_pid (spawn env) = - 1 \<longrightarrow>
            (\<exists>cs. main env = Some (Inr (1, cs))))
       \<and> (spawned (spawn_primary_client (spawn env) (initial_server vt mode env))
            \<and> client_exit_delivered vt mode env \<and> (\<forall>err. main env \<noteq> Some (Inl err)) \<longrightarrow>
            (\<exists>cs. main env = Some (Inr (cleanup_primary_client (child_status env), cs))))"
proof -
  have m: "main env = run_client env (initial_server vt mode env)"
    by (rule main_after_setup[OF assms])
  have a: "\<not> pipe_ok (spawn env) \<or> fork_pid (spawn env) = - 1 \<longrightarrow>
            (\<exists>cs. main env = Some (Inr (1, cs)))"
    unfolding m by (auto simp: run_client_def spawn_primary_client_def)
  have b: "\<exists>cs. main env = Some (Inr (cleanup_primary_client (child_status env), cs))"
    if sp: "spawned (spawn_primary_client (spawn env) (initial_server vt mode env))"
      and d: "client_exit_delivered vt mode env" and na: "\<forall>err. main env \<noteq> Some (Inl err)"
  proof -
    from loop_liveness[OF d[unfolded client_exit_delivered_def] loop_start_fields(1)]
    consider err where "display_loop (wlr_has_x11_backend env) (loop_events env) (loop_start vt mode env) = Some (Inl err)"
      | s' where "display_loop (wlr_has_x11_backend env) (loop_events env) (loop_start vt mode env) = Some (Inr s')"
          "return_app_code s'"
      by blast
    then show ?thesis
    proof cases
      case 1
      then have "main env = Some (Inl err)" unfolding m run_client_unfold using sp by simp
      with na show ?thesis by blast
    next
      case 2
      then show ?thesis unfolding m run_client_unfold using sp by simp
    qed
  qed
  show ?thesis using a b by simp
qed

text \<open>
  Claim C10. After a successful set-up and spawn, the client's status is collected
  exactly when the liveness source fired while the loop ran: if it did not, every
  normal return of \<open>main\<close> has exit code 0 and made no \<open>waitpid\<close> call; if it did,
  the exit code is the translated status and \<open>waitpid\<close> was called on the client.
  A loop that receives SIGINT or SIGTERM does return.
\<close>

theorem exit_status_only_after_liveness:
  assumes "setup_succeeds env" and "parse_args env = Options vt mode"
    and sp: "spawned (spawn_primary_client (spawn env) (initial_server vt mode env))"
  shows "(\<not> client_exit_delivered vt mode env \<longrightarrow>
            (\<forall>code cs. main env = Some (Inr (code, cs)) \<longrightarrow>
               code = 0 \<and> (\<forall>p. Waitpid p \<notin> set cs)))
       \<and> (client_exit_delivered vt mode env \<longrightarrow>
            (\<forall>code cs. main env = Some (Inr (code, cs)) \<longrightarrow>
               code = cleanup_primary_client (child_status env)
               \<and> Waitpid (fork_pid (spawn env)) \<in> set cs))
       \<and> ((\<exists>ready\<in>set (loop_events env). Signal SIGINT \<in> set ready \<or> Signal SIGTERM \<in> set ready) \<longrightarrow>
            main env \<noteq> None)"
proof -
  let ?loop = "display_loop (wlr_has_x11_backend env) (loop_events env) (loop_start vt mode env)"
  have m: "main env = run_client env (initial_server vt mode env)"
    by (rule main_after_setup[OF assms(1,2)])
  have pid: "pid_out (spawn_primary_client (spawn env) (initial_server vt mode env)) = fork_pid (spawn env)"
    using sp by (auto simp: spawn_primary_client_def split: if_splits)
  have a: "code = 0 \<and> (\<forall>p. Waitpid p \<notin> set cs)"
    if nd: "\<not> client_exit_delivered vt mode env" and r: "main env = Some (Inr (code, cs))" for code cs
  proof -
    from r obtain s' where l: "?loop = Some (Inr s')"
      unfolding m run_client_unfold using sp by (auto simp: Let_def split: option.splits sum.splits)
    from nd have "\<forall>e\<in>set (delivered (wlr_has_x11_backend env) (loop_events env) (loop_start vt mode env)). \<not> is_liveness e"
      by (simp add: client_exit_delivered_def)
    from loop_no_liveness[OF l this] have k: "supervision_kept (loop_start vt mode env) s'" .
    then have "\<not> return_app_code s'" "\<forall>p. Waitpid p \<notin> set (calls s')"
      using loop_start_fields by (auto simp: supervision_kept_def)
    with r l show ?thesis unfolding m run_client_unfold using sp by (auto simp: Let_def)
  qed
  have b: "code = cleanup_primary_client (child_status env) \<and> Waitpid (fork_pid (spawn env)) \<in> set cs"
    if d: "client_exit_delivered vt mode env" and r: "main env = Some (Inr (code, cs))" for code cs
  proof -
    from loop_liveness[OF d[unfolded client_exit_delivered_def] loop_start_fields(1)] r
    obtain s' where "?loop = Some (Inr s')" "return_app_code s'"
      unfolding m run_client_unfold using sp by (auto simp: Let_def)
    with r show ?thesis unfolding m run_client_unfold using sp pid by (auto simp: Let_def)
  qed
  have c: "main env \<noteq> None"
    if "\<exists>ready\<in>set (loop_events env). Signal SIGINT \<in> set ready \<or> Signal SIGTERM \<in> set ready"
  proof -
    from loop_stops[OF that loop_start_fields(1)] have "?loop \<noteq> None" .
    then show ?thesis unfolding m run_client_unfold using sp
      by (auto simp: Let_def split: option.splits sum.splits)
  qed
  show ?thesis using a b c by blast
qed

text \<open>Evaluation of \<open>main\<close> on the example starts.\<close>

lemmas eval_defs =
  main_def run_client_def spawn_primary_client_def wl_display_run_def initial_server_def
  do_call_def handle_key_event_def handle_keybinding_def sigchld_handler_def
  server_terminate_def handle_signal_def SIGINT_def SIGTERM_def drop_permissions_def
  WLR_MODIFIER_ALT_def XKB_KEY_Escape_def XKB_KEY_XF86Switch_VT_1_def
  XKB_KEY_XF86Switch_VT_12_def setup_succeeds_def loop_start_def client_exit_delivered_def
  cleanup_primary_client_def WIFEXITED_def WIFSIGNALED_def WTERMSIG_def WEXITSTATUS_def
  W_EXITCODE_def handle_idle_inhibitor_v1_new_def wl_list_insert_def

lemma example_startup_main:
  "main example_startup =
     Some (Inr (3, [Pipe, Fork, Close_fd 6, Wlr_seat_set_keyboard,
                    Wlr_seat_keyboard_notify_key 7 30 WL_KEYBOARD_KEY_STATE_PRESSED,
                    Wlr_idle_notifier_v1_notify_activity, Close_fd 5, Wl_display_terminate,
                    Waitpid 4242]))"
  by (simp add: example_startup_def eval_defs)

lemma example_startup_setup:
  "setup_succeeds example_startup"
  "parse_args example_startup = Options True GAMEFRAME_MULTI_OUTPUT_MODE_EXTEND"
  "spawned (spawn_primary_client (spawn example_startup)
      (initial_server True GAMEFRAME_MULTI_OUTPUT_MODE_EXTEND example_startup))"
  by (simp_all add: example_startup_def eval_defs)

lemma example_startup_delivered:
  "client_exit_delivered True GAMEFRAME_MULTI_OUTPUT_MODE_EXTEND example_startup"
  by (simp add: example_startup_def eval_defs)

lemma example_startup_exit_status:
  "WIFEXITED (client_status (child_status example_startup))
   \<and> WEXITSTATUS (client_status (child_status example_startup)) = 3
   \<and> (\<exists>cs. main example_startup = Some (Inr (3, cs)))"
  by (simp add: example_startup_main) (simp add: example_startup_def eval_defs)

text \<open>
  Claim C1, where the code departs from it. The server runs in a process that ignores
  \<open>SIGCHLD\<close>. Every set-up step succeeds, the client is spawned and exits normally
  with status 3, and the liveness pipe reports its exit while the loop runs.
  \<open>waitpid\<close> fails and stores nothing, \<open>cleanup_primary_client\<close> reads the
  variable it never gave a value, and the server exits with 130, the code of a client
  killed by signal 2, and not with 3.
\<close>

theorem exit_code_from_uninitialised_status:
  "setup_succeeds ignored_sigchld_startup
   \<and> client_exit_delivered True GAMEFRAME_MULTI_OUTPUT_MODE_EXTEND ignored_sigchld_startup
   \<and> WIFEXITED (client_status (child_status ignored_sigchld_startup))
   \<and> WEXITSTATUS (client_status (child_status ignored_sigchld_startup)) = 3
   \<and> \<not> waitpid_ok (child_status ignored_sigchld_startup)
   \<and> main ignored_sigchld_startup =
       Some (Inr (130, [Pipe, Fork, Close_fd 6, Wlr_seat_set_keyboard,
                        Wlr_seat_keyboard_notify_key 7 30 WL_KEYBOARD_KEY_STATE_PRESSED,
                        Wlr_idle_notifier_v1_notify_activity, Close_fd 5, Wl_display_terminate,
                        Waitpid 4242]))"
  by (simp add: ignored_sigchld_startup_def example_startup_def eval_defs)

theorem exit_code_from_uninitialised_status_witness:
  "\<exists>code cs. main ignored_sigchld_startup = Some (Inr (code, cs))
      \<and> code \<noteq> WEXITSTATUS (client_status (child_status ignored_sigchld_startup))"
  using exit_code_from_uninitialised_status by simp

lemma sigint_startup_main:
  "main sigint_startup = Some (Inr (0, [Pipe, Fork, Close_fd 6, Wl_display_terminate]))"
  by (simp add: sigint_startup_def example_startup_def eval_defs)

lemma sigint_startup_setup:
  "setup_succeeds sigint_startup"
  "parse_args sigint_startup = Options True GAMEFRAME_MULTI_OUTPUT_MODE_EXTEND"
  "spawned (spawn_primary_client (spawn sigint_startup)
      (initial_server True GAMEFRAME_MULTI_OUTPUT_MODE_EXTEND sigint_startup))"
  by (simp_all add: sigint_startup_def example_startup_def eval_defs)

lemma sigint_startup_not_delivered:
  "\<not> client_exit_delivered True GAMEFRAME_MULTI_OUTPUT_MODE_EXTEND sigint_startup"
  by (simp add: sigint_startup_def example_startup_def eval_defs)

theorem exit_status_only_after_liveness_witness:
  "setup_succeeds sigint_startup
   \<and> \<not> client_exit_delivered True GAMEFRAME_MULTI_OUTPUT_MODE_EXTEND sigint_startup
   \<and> (\<exists>cs. main sigint_startup = Some (Inr (0, cs)) \<and> Waitpid 4242 \<notin> set cs)
   \<and> main sigint_startup \<noteq> None"
proof -
  have sig: "\<exists>ready\<in>set (loop_events sigint_startup).
               Signal SIGINT \<in> set ready \<or> Signal SIGTERM \<in> set ready"
    by (simp add: sigint_startup_def example_startup_def SIGINT_def)
  from exit_status_only_after_liveness[OF sigint_startup_setup]
    sigint_startup_not_delivered sig sigint_startup_main
  show ?thesis using sigint_startup_setup(1) by simp
qed

text \<open>
  Claim C9, as the code has it. A process whose real user and group ids are not 0 is
  refused when it cannot drop its set-uid or set-gid privileges, or when it can regain
  root after the drop: \<open>drop_permissions\<close> fails, \<open>main\<close> returns 1 and has made no
  call, so no client was forked. A process whose real user or group id is 0 passes
  the check.
\<close>

theorem drop_failure_refuses_start:
  assumes "parse_args env = Options vt mode" and "xdg_runtime_dir_set env"
    and "display_created env" and "backend_created env"
  shows "(uid (creds env) \<noteq> 0 \<and> gid (creds env) \<noteq> 0
          \<and> (((uid (creds env) \<noteq> euid (creds env) \<or> gid (creds env) \<noteq> egid (creds env))
               \<and> (setgid_own (creds env) \<noteq> 0 \<or> setuid_own (creds env) \<noteq> 0))
              \<or> setgid_root (creds env) \<noteq> - 1 \<or> setuid_root (creds env) \<noteq> - 1)
          \<longrightarrow> \<not> drop_permissions (creds env) \<and> main env = Some (Inr (1, [])))
       \<and> (uid (creds env) = 0 \<or> gid (creds env) = 0 \<longrightarrow> drop_permissions (creds env))"
  using assms by (auto simp: drop_permissions_def main_def)

theorem drop_failure_refuses_start_witness:
  "uid (creds setuid_startup) \<noteq> 0 \<and> gid (creds setuid_startup) \<noteq> 0
   \<and> setgid_root (creds setuid_startup) \<noteq> - 1
   \<and> \<not> drop_permissions (creds setuid_startup)
   \<and> main setuid_startup = Some (Inr (1, []))"
proof -
  have h: "parse_args setuid_startup = Options True GAMEFRAME_MULTI_OUTPUT_MODE_EXTEND"
    "xdg_runtime_dir_set setuid_startup" "display_created setuid_startup"
    "backend_created setuid_startup"
    by (simp_all add: setuid_startup_def example_startup_def)
  have c: "uid (creds setuid_startup) \<noteq> 0" "gid (creds setuid_startup) \<noteq> 0"
    "setgid_root (creds setuid_startup) \<noteq> - 1"
    by (simp_all add: setuid_startup_def example_startup_def)
  from drop_failure_refuses_start[OF h] c show ?thesis by simp
qed

text \<open>
  The claim as written fails for the super-user: with real and effective user id 0
  nothing is dropped, the check passes, and the client is forked and supervised.
\<close>

theorem root_start_counterexample:
  "uid (creds root_startup) = 0 \<and> euid (creds root_startup) = 0
   \<and> drop_permissions (creds root_startup)
   \<and> main root_startup =
       Some (Inr (3, [Pipe, Fork, Close_fd 6, Wlr_seat_set_keyboard,
                      Wlr_seat_keyboard_notify_key 7 30 WL_KEYBOARD_KEY_STATE_PRESSED,
                      Wlr_idle_notifier_v1_notify_activity, Close_fd 5, Wl_display_terminate,
                      Waitpid 4242]))"
  by (simp add: root_startup_def example_startup_def eval_defs)

section \<open>Global keybindings\<close>

lemma handle_keybinding_handled: "fst (handle_keybinding s k) = bound_action s k"
  by (simp add: handle_keybinding_def bound_action_def)

lemma handle_keybinding_allow:
  "allow_vt_switch (snd (handle_keybinding s k)) = allow_vt_switch s"
  by (simp add: handle_keybinding_def server_terminate_def do_call_def)

text \<open>
  The loop over the symbols of a key assigns \<open>handled\<close> for each: the last symbol
  decides whether the event counts as handled.
\<close>

lemma keybinding_loop_last_symbol:
  "fst (foldl (\<lambda>(h, s) keysym. handle_keybinding s keysym) (h0, s0) syms) =
     (if syms = [] then h0 else bound_action s0 (last syms))"
proof (induction syms arbitrary: h0 s0)
  case Nil
  then show ?case by simp
next
  case (Cons k ks)
  obtain h1 s1 where step: "handle_keybinding s0 k = (h1, s1)"
    by (cases "handle_keybinding s0 k")
  have h1: "h1 = bound_action s0 k" using handle_keybinding_handled[of s0 k] step by simp
  have "allow_vt_switch s1 = allow_vt_switch s0"
    using handle_keybinding_allow[of s0 k] step by simp
  then have b: "bound_action s1 = bound_action s0" by (simp add: bound_action_def fun_eq_iff)
  show ?case using Cons.IH[of h1 s1] step h1 b by simp
qed

lemma escape_not_vt_switch:
  "\<not> (XKB_KEY_XF86Switch_VT_1 \<le> XKB_KEY_Escape)"
  by (simp add: XKB_KEY_XF86Switch_VT_1_def XKB_KEY_Escape_def)

text \<open>
  Claim C3, as the code has it. For a key event whose key resolves to at most one
  symbol, the event is kept from the client exactly when Alt is held, the key is
  pressed (not released) and the key has a symbol that is Escape, or one of the
  VT-switch symbols 1 to 12 while VT switching is permitted; an event without a symbol
  is forwarded. A consumed Escape runs \<open>server_terminate\<close>, which asks the display
  to terminate unless it is already destroyed. The VT is changed exactly when the
  event is consumed for a VT-switch symbol on a multi backend that has a session, and
  then to the VT of the symbol; on any other backend the event is consumed and no VT
  is changed. With VT switching disabled a VT-switch key is forwarded.
\<close>

theorem keybinding_filter:
  "(length syms \<le> 1 \<longrightarrow>
      (key_forwarded modifiers syms event server \<longleftrightarrow>
         \<not> (modifiers AND WLR_MODIFIER_ALT \<noteq> 0
            \<and> key_state event = WL_KEYBOARD_KEY_STATE_PRESSED
            \<and> (\<exists>keysym. syms = [keysym] \<and> bound_action server keysym))))
   \<and> (modifiers AND WLR_MODIFIER_ALT \<noteq> 0 \<and> key_state event = WL_KEYBOARD_KEY_STATE_PRESSED
        \<longrightarrow> handle_key_event modifiers [XKB_KEY_Escape] event server =
              do_call Wlr_idle_notifier_v1_notify_activity (server_terminate server)
            \<and> (\<not> terminated server \<longrightarrow>
                 new_calls server (handle_key_event modifiers [XKB_KEY_Escape] event server) =
                   [Wl_display_terminate, Wlr_idle_notifier_v1_notify_activity]))
   \<and> (\<forall>vt. Wlr_session_change_vt vt
               \<in> set (new_calls server (handle_key_event modifiers [keysym] event server)) \<longleftrightarrow>
             modifiers AND WLR_MODIFIER_ALT \<noteq> 0
             \<and> key_state event = WL_KEYBOARD_KEY_STATE_PRESSED
             \<and> allow_vt_switch server \<and> XKB_KEY_XF86Switch_VT_1 \<le> keysym
             \<and> keysym \<le> XKB_KEY_XF86Switch_VT_12
             \<and> backend_is_multi server \<and> session server \<noteq> None
             \<and> vt = keysym - XKB_KEY_XF86Switch_VT_1 + 1)
   \<and> (modifiers AND WLR_MODIFIER_ALT \<noteq> 0 \<and> key_state event = WL_KEYBOARD_KEY_STATE_PRESSED
        \<and> allow_vt_switch server \<and> XKB_KEY_XF86Switch_VT_1 \<le> keysym
        \<and> keysym \<le> XKB_KEY_XF86Switch_VT_12 \<longrightarrow>
        new_calls server (handle_key_event modifiers [keysym] event server) =
          (if backend_is_multi server \<and> session server \<noteq> None
           then [Wlr_session_change_vt (keysym - XKB_KEY_XF86Switch_VT_1 + 1)] else [])
          @ [Wlr_idle_notifier_v1_notify_activity, Wlr_idle_notifier_v1_notify_activity])
   \<and> (\<forall>vt. Wlr_session_change_vt vt
               \<notin> set (new_calls server (handle_key_event modifiers [] event server)))
   \<and> (\<not> allow_vt_switch server \<and> XKB_KEY_XF86Switch_VT_1 \<le> keysym
        \<and> keysym \<le> XKB_KEY_XF86Switch_VT_12
        \<longrightarrow> key_forwarded modifiers [keysym] event server)"
proof -
  have a0: "key_forwarded modifiers [] event server"
    by (simp add: key_forwarded_def new_calls_def handle_key_event_def do_call_def)
  have a1: "key_forwarded modifiers [k] event server \<longleftrightarrow>
      \<not> (modifiers AND WLR_MODIFIER_ALT \<noteq> 0
         \<and> key_state event = WL_KEYBOARD_KEY_STATE_PRESSED
         \<and> bound_action server k)" for k
    by (auto simp: key_forwarded_def new_calls_def handle_key_event_def handle_keybinding_def
        bound_action_def server_terminate_def do_call_def)
  have a: "key_forwarded modifiers syms event server \<longleftrightarrow>
         \<not> (modifiers AND WLR_MODIFIER_ALT \<noteq> 0
            \<and> key_state event = WL_KEYBOARD_KEY_STATE_PRESSED
            \<and> (\<exists>keysym. syms = [keysym] \<and> bound_action server keysym))"
    if "length syms \<le> 1"
  proof (cases syms)
    case Nil
    then show ?thesis using a0 by simp
  next
    case (Cons k ks)
    with that have "syms = [k]" by simp
    then show ?thesis using a1[of k] by simp
  qed
  have b: "handle_key_event modifiers [XKB_KEY_Escape] event server =
              do_call Wlr_idle_notifier_v1_notify_activity (server_terminate server)"
    if "modifiers AND WLR_MODIFIER_ALT \<noteq> 0" "key_state event = WL_KEYBOARD_KEY_STATE_PRESSED"
    using that by (simp add: handle_key_event_def handle_keybinding_def)
  have c: "new_calls server (do_call Wlr_idle_notifier_v1_notify_activity (server_terminate server)) =
             [Wl_display_terminate, Wlr_idle_notifier_v1_notify_activity]"
    if "\<not> terminated server"
    using that by (simp add: new_calls_def server_terminate_def do_call_def)
  have v: "Wlr_session_change_vt vt
               \<in> set (new_calls server (handle_key_event modifiers [keysym] event server)) \<longleftrightarrow>
             modifiers AND WLR_MODIFIER_ALT \<noteq> 0
             \<and> key_state event = WL_KEYBOARD_KEY_STATE_PRESSED
             \<and> allow_vt_switch server \<and> XKB_KEY_XF86Switch_VT_1 \<le> keysym
             \<and> keysym \<le> XKB_KEY_XF86Switch_VT_12
             \<and> backend_is_multi server \<and> session server \<noteq> None
             \<and> vt = keysym - XKB_KEY_XF86Switch_VT_1 + 1" for vt
    using escape_not_vt_switch
    by (auto simp: new_calls_def handle_key_event_def handle_keybinding_def
        server_terminate_def do_call_def)
  have v0: "Wlr_session_change_vt vt
               \<notin> set (new_calls server (handle_key_event modifiers [] event server))" for vt
    by (simp add: new_calls_def handle_key_event_def do_call_def)
  have v1: "new_calls server (handle_key_event modifiers [keysym] event server) =
          (if backend_is_multi server \<and> session server \<noteq> None
           then [Wlr_session_change_vt (keysym - XKB_KEY_XF86Switch_VT_1 + 1)] else [])
          @ [Wlr_idle_notifier_v1_notify_activity, Wlr_idle_notifier_v1_notify_activity]"
    if "modifiers AND WLR_MODIFIER_ALT \<noteq> 0" "key_state event = WL_KEYBOARD_KEY_STATE_PRESSED"
      "allow_vt_switch server" "XKB_KEY_XF86Switch_VT_1 \<le> keysym"
      "keysym \<le> XKB_KEY_XF86Switch_VT_12"
  proof -
    have "keysym \<noteq> XKB_KEY_Escape" using that(4) escape_not_vt_switch by auto
    then show ?thesis
      using that
      by (simp add: new_calls_def handle_key_event_def handle_keybinding_def do_call_def)
  qed
  have d: "key_forwarded modifiers [keysym] event server"
    if "\<not> allow_vt_switch server" "XKB_KEY_XF86Switch_VT_1 \<le> keysym"
  proof -
    have "keysym \<noteq> XKB_KEY_Escape" using that(2) escape_not_vt_switch by auto
    then have "\<not> bound_action server keysym" using that(1) by (simp add: bound_action_def)
    then show ?thesis using a1[of keysym] by simp
  qed
  show ?thesis using a b c v v0 v1 d by simp
qed

theorem keybinding_filter_witness:
  "\<not> key_forwarded 8 [XKB_KEY_Escape]
       \<lparr>time_msec = 7, keycode = 1, key_state = WL_KEYBOARD_KEY_STATE_PRESSED\<rparr> drm_server
   \<and> new_calls drm_server
        (handle_key_event 8 [XKB_KEY_Escape]
           \<lparr>time_msec = 7, keycode = 1, key_state = WL_KEYBOARD_KEY_STATE_PRESSED\<rparr> drm_server) =
      [Wl_display_terminate, Wlr_idle_notifier_v1_notify_activity]
   \<and> Wlr_session_change_vt 3
       \<in> set (new_calls drm_server
                (handle_key_event 8 [0x1008FE03]
                   \<lparr>time_msec = 7, keycode = 61, key_state = WL_KEYBOARD_KEY_STATE_PRESSED\<rparr>
                   drm_server))
   \<and> key_forwarded 8 [XKB_KEY_XF86Switch_VT_1]
       \<lparr>time_msec = 7, keycode = 59, key_state = WL_KEYBOARD_KEY_STATE_PRESSED\<rparr>
       (drm_server\<lparr>allow_vt_switch := False\<rparr>)"
proof -
  let ?ev = "\<lparr>time_msec = 7, keycode = 1, key_state = WL_KEYBOARD_KEY_STATE_PRESSED\<rparr>"
  let ?ev2 = "\<lparr>time_msec = 7, keycode = 59, key_state = WL_KEYBOARD_KEY_STATE_PRESSED\<rparr>"
  let ?ev3 = "\<lparr>time_msec = 7, keycode = 61, key_state = WL_KEYBOARD_KEY_STATE_PRESSED\<rparr>"
  have alt: "(8 :: 32 word) AND WLR_MODIFIER_ALT \<noteq> 0" by (simp add: WLR_MODIFIER_ALT_def)
  have pressed: "key_state ?ev = WL_KEYBOARD_KEY_STATE_PRESSED" by simp
  have pressed3: "key_state ?ev3 = WL_KEYBOARD_KEY_STATE_PRESSED" by simp
  have nt: "\<not> terminated drm_server" by (simp add: drm_server_def nested_server_def)
  have esc: "bound_action drm_server XKB_KEY_Escape" by (simp add: bound_action_def)
  have one: "length [XKB_KEY_Escape] \<le> 1" by simp
  have off: "\<not> allow_vt_switch (drm_server\<lparr>allow_vt_switch := False\<rparr>)" by simp
  have rng: "XKB_KEY_XF86Switch_VT_1 \<le> XKB_KEY_XF86Switch_VT_1"
    "XKB_KEY_XF86Switch_VT_1 \<le> XKB_KEY_XF86Switch_VT_12"
    by (simp_all add: XKB_KEY_XF86Switch_VT_1_def XKB_KEY_XF86Switch_VT_12_def)
  have drm: "allow_vt_switch drm_server" "backend_is_multi drm_server"
    "session drm_server \<noteq> None"
    by (simp_all add: drm_server_def nested_server_def)
  have rng3: "XKB_KEY_XF86Switch_VT_1 \<le> 0x1008FE03" "(0x1008FE03 :: 32 word) \<le> XKB_KEY_XF86Switch_VT_12"
    "(3 :: 32 word) = 0x1008FE03 - XKB_KEY_XF86Switch_VT_1 + 1"
    by (simp_all add: XKB_KEY_XF86Switch_VT_1_def XKB_KEY_XF86Switch_VT_12_def)
  note k1 = keybinding_filter[where syms = "[XKB_KEY_Escape]" and modifiers = 8 and event = ?ev
      and server = drm_server and keysym = XKB_KEY_Escape]
  have 1: "\<not> key_forwarded 8 [XKB_KEY_Escape] ?ev drm_server"
    using k1[THEN conjunct1, THEN mp, OF one] alt esc by simp
  have 2: "new_calls drm_server (handle_key_event 8 [XKB_KEY_Escape] ?ev drm_server) =
      [Wl_display_terminate, Wlr_idle_notifier_v1_notify_activity]"
    using k1[THEN conjunct2, THEN conjunct1, THEN mp, OF conjI[OF alt pressed], THEN conjunct2] nt
    by blast
  note k3 = keybinding_filter[where syms = "[0x1008FE03]" and modifiers = 8 and event = ?ev3
      and server = drm_server and keysym = "0x1008FE03"]
  have 3: "Wlr_session_change_vt 3
       \<in> set (new_calls drm_server (handle_key_event 8 [0x1008FE03] ?ev3 drm_server))"
    using k3[THEN conjunct2, THEN conjunct2, THEN conjunct1, THEN spec, of 3]
      alt pressed3 drm rng3 by blast
  note k2 = keybinding_filter[where syms = "[XKB_KEY_XF86Switch_VT_1]" and modifiers = 8
      and event = ?ev2 and server = "drm_server\<lparr>allow_vt_switch := False\<rparr>"
      and keysym = XKB_KEY_XF86Switch_VT_1]
  have 4: "key_forwarded 8 [XKB_KEY_XF86Switch_VT_1] ?ev2 (drm_server\<lparr>allow_vt_switch := False\<rparr>)"
    using k2[THEN conjunct2, THEN conjunct2, THEN conjunct2, THEN conjunct2, THEN conjunct2]
      off rng by blast
  show ?thesis using 1 2 3 4 by simp
qed

text \<open>
  The claim as written fails in two ways. A release of Escape while Alt is held is
  forwarded to the client and asks for no termination. And a VT-switch key is consumed
  whenever VT switching is permitted, also on a backend that is not a multi backend,
  where no VT is changed.
\<close>

theorem keybinding_filter_counterexample:
  "WLR_MODIFIER_ALT AND WLR_MODIFIER_ALT \<noteq> 0
   \<and> new_calls drm_server
        (handle_key_event WLR_MODIFIER_ALT [XKB_KEY_Escape]
           \<lparr>time_msec = 7, keycode = 1, key_state = WL_KEYBOARD_KEY_STATE_RELEASED\<rparr> drm_server) =
      [Wlr_seat_set_keyboard,
       Wlr_seat_keyboard_notify_key 7 1 WL_KEYBOARD_KEY_STATE_RELEASED,
       Wlr_idle_notifier_v1_notify_activity]
   \<and> \<not> backend_is_multi nested_server
   \<and> new_calls nested_server
        (handle_key_event WLR_MODIFIER_ALT [XKB_KEY_XF86Switch_VT_1]
           \<lparr>time_msec = 7, keycode = 59, key_state = WL_KEYBOARD_KEY_STATE_PRESSED\<rparr> nested_server) =
      [Wlr_idle_notifier_v1_notify_activity, Wlr_idle_notifier_v1_notify_activity]"
  by (simp add: new_calls_def handle_key_event_def handle_keybinding_def drm_server_def
      nested_server_def do_call_def server_terminate_def WLR_MODIFIER_ALT_def
      XKB_KEY_Escape_def XKB_KEY_XF86Switch_VT_1_def XKB_KEY_XF86Switch_VT_12_def)

section \<open>Idle inhibition\<close>

lemma idle_inhibited_push:
  "idle_inhibited (do_call (Wlr_idle_notifier_v1_set_inhibited v) s) = v"
  by (simp add: idle_inhibited_def do_call_def)

text \<open>
  On a list that \<open>wl_list_init\<close> has initialised the two handlers do what the
  specification says. A new inhibitor (when its record is allocated) is put on the
  list and the handler pushes exactly one flag, which is true; a failed allocation
  changes nothing. The destroy handler takes the inhibitor off the list and pushes, in
  the same invocation, exactly one flag, which says whether inhibitors remain.
\<close>

lemma idle_inhibition_on_initialised_list:
  assumes "inhibitors s = Wl_list xs"
  shows "\<exists>s'. handle_idle_inhibitor_v1_new True i s = Inr s'
            \<and> inhibitors s' = Wl_list (i # xs)
            \<and> new_calls s s' = [Wlr_idle_notifier_v1_set_inhibited True]
            \<and> idle_inhibited s'"
    and "handle_idle_inhibitor_v1_new False i s = Inr s"
    and "inhibitors (handle_destroy i s) = Wl_list (remove1 i xs)"
    and "new_calls s (handle_destroy i s) =
           [Wlr_idle_notifier_v1_set_inhibited (remove1 i xs \<noteq> [])]"
    and "idle_inhibited (handle_destroy i s) = (remove1 i xs \<noteq> [])"
  using assms
  by (auto simp: handle_idle_inhibitor_v1_new_def handle_destroy_def
      idle_inhibit_v1_check_active_def idle_inhibited_def new_calls_def do_call_def
      wl_list_insert_def wl_list_empty_def wl_list_remove_def)

lemma idle_inhibition_after_wl_list_init:
  "\<exists>s1. handle_idle_inhibitor_v1_new True 7 (nested_server\<lparr>inhibitors := wl_list_init\<rparr>) = Inr s1
      \<and> idle_inhibited s1 \<and> inhibitors (handle_destroy 7 s1) = Wl_list []
      \<and> \<not> idle_inhibited (handle_destroy 7 s1)"
proof -
  let ?s = "nested_server\<lparr>inhibitors := wl_list_init\<rparr>"
  have e: "inhibitors ?s = Wl_list []" by (simp add: wl_list_init_def)
  from idle_inhibition_on_initialised_list(1)[OF e, of 7]
  obtain s1 where s1: "handle_idle_inhibitor_v1_new True 7 ?s = Inr s1"
    "inhibitors s1 = Wl_list [7]" "idle_inhibited s1" by blast
  from idle_inhibition_on_initialised_list(3,5)[OF s1(2), of 7]
  have "inhibitors (handle_destroy 7 s1) = Wl_list []" "\<not> idle_inhibited (handle_destroy 7 s1)"
    by simp_all
  with s1 show ?thesis by blast
qed

text \<open>
  \<open>main\<close> starts the loop with the list as the initialiser of \<open>server\<close> zeroed
  it, whatever the start; on such a list a new inhibitor whose record was allocated
  ends the process in \<open>wl_list_insert\<close>, before any flag is computed.
\<close>

lemma main_leaves_inhibitors_zeroed:
  "inhibitors (loop_start vt mode env) = Wl_list_zeroed"
  by (simp add: loop_start_def spawn_primary_client_def initial_server_def)

lemma new_inhibitor_on_zeroed_list:
  "inhibitors s = Wl_list_zeroed \<Longrightarrow>
     handle_idle_inhibitor_v1_new True i s = Inl Null_dereference"
  by (simp add: handle_idle_inhibitor_v1_new_def wl_list_insert_def)

text \<open>
  Every handler but those of the inhibitors leaves \<open>server->inhibitors\<close> as it is
  and pushes no flag to the idle notifier; on the zeroed list the handler of a new
  inhibitor returns only when its allocation failed, and no inhibitor is there to be
  destroyed. So a loop that starts with the zeroed list keeps it and pushes no flag.
\<close>

lemma untouched_refl [simp]: "inhibition_untouched s s"
  by (simp add: inhibition_untouched_def)

lemma untouched_trans:
  "inhibition_untouched a b \<Longrightarrow> inhibition_untouched b c \<Longrightarrow> inhibition_untouched a c"
  by (auto simp: inhibition_untouched_def)

lemma untouched_server_terminate: "inhibition_untouched s (server_terminate s)"
  by (auto simp: inhibition_untouched_def server_terminate_def)

lemma untouched_handle_signal: "inhibition_untouched s (handle_signal n s)"
  by (simp add: handle_signal_def untouched_server_terminate)

lemma untouched_handle_keybinding: "inhibition_untouched s (snd (handle_keybinding s k))"
  by (auto simp: handle_keybinding_def untouched_server_terminate) (auto simp: inhibition_untouched_def)

lemma untouched_fold_keybinding:
  "inhibition_untouched s0 (snd acc) \<Longrightarrow>
     inhibition_untouched s0 (snd (foldl (\<lambda>(h, s) keysym. handle_keybinding s keysym) acc syms))"
proof (induction syms arbitrary: acc)
  case Nil then show ?case by simp
next
  case (Cons k ks)
  obtain h s where acc: "acc = (h, s)" by (cases acc)
  have "inhibition_untouched s0 (snd (handle_keybinding s k))"
    using Cons.prems untouched_handle_keybinding[of s k] acc by (auto intro: untouched_trans)
  from Cons.IH[OF this] show ?case by (simp add: acc)
qed

lemma untouched_handle_key_event: "inhibition_untouched s (handle_key_event mods syms ev s)"
proof -
  have f: "inhibition_untouched s
             (snd (foldl (\<lambda>(h, s) keysym. handle_keybinding s keysym) (False, s) syms))"
    by (rule untouched_fold_keybinding) simp
  show ?thesis
    using f unfolding handle_key_event_def
    by (auto simp: inhibition_untouched_def Let_def split: prod.splits if_splits)
qed

lemma untouched_update_output_manager_config: "inhibition_untouched s (update_output_manager_config s)"
  by (simp add: update_output_manager_config_def inhibition_untouched_def)

lemma untouched_output_layout_remove: "inhibition_untouched s (output_layout_remove out s)"
  by (simp add: output_layout_remove_def inhibition_untouched_def)

lemma untouched_wlr_output_commit_state: "inhibition_untouched s (wlr_output_commit_state c n v s)"
  by (simp add: wlr_output_commit_state_def inhibition_untouched_def)

lemma untouched_output_layout_add_auto: "output_layout_add_auto out s = Inr s' \<Longrightarrow> inhibition_untouched s s'"
  by (auto simp: output_layout_add_auto_def inhibition_untouched_def split: option.splits)

lemma untouched_output_enable: "output_enable c out s = Inr s' \<Longrightarrow> inhibition_untouched s s'"
  unfolding output_enable_def Let_def
  by (auto split: if_splits sum.splits
      intro: untouched_trans[OF untouched_wlr_output_commit_state]
             untouched_trans[OF untouched_output_layout_add_auto untouched_update_output_manager_config]
             untouched_update_output_manager_config)

lemma untouched_outputs_update: "inhibition_untouched s (s\<lparr>outputs := x\<rparr>)"
  by (simp add: inhibition_untouched_def)

lemma untouched_output_destroy:
  assumes "output_destroy x11 c out s = Inr s'"
  shows "inhibition_untouched s s'"
proof -
  define s2 where "s2 = output_layout_remove out (s\<lparr>outputs := remove1 out (outputs s)\<rparr>)"
  have u2: "inhibition_untouched s s2"
    unfolding s2_def by (rule untouched_trans[OF untouched_outputs_update untouched_output_layout_remove])
  have "s' = server_terminate s2 \<or> s' = s2
        \<or> (\<exists>s3. output_enable c (hd (outputs s2)) s2 = Inr s3 \<and> s' = do_call View_position_all s3)"
    using assms unfolding output_destroy_def Let_def s2_def[symmetric]
    by (auto split: if_splits sum.splits)
  then show ?thesis
  proof (elim disjE exE conjE)
    assume "s' = server_terminate s2"
    then show ?thesis using u2 untouched_server_terminate untouched_trans by blast
  next
    assume "s' = s2"
    then show ?thesis using u2 by simp
  next
    fix s3 assume e: "output_enable c (hd (outputs s2)) s2 = Inr s3" and s': "s' = do_call View_position_all s3"
    have "inhibition_untouched s3 s'" unfolding s' by (simp add: inhibition_untouched_def)
    then show ?thesis using u2 untouched_output_enable[OF e] untouched_trans by blast
  qed
qed

lemma untouched_handle_new_output:
  assumes "handle_new_output a raw s = Inr s'"
  shows "inhibition_untouched s s'"
proof -
  define out where "out = raw\<lparr>scene_output := scene_output_created a\<rparr>"
  define s1 where "s1 = s\<lparr>outputs := out # outputs s\<rparr>"
  define s2 where "s2 = wlr_output_commit_state (first_commit_ok a) (wlr_output out) True s1"
  have u1: "inhibition_untouched s s1" unfolding s1_def by (rule untouched_outputs_update)
  have u2: "inhibition_untouched s s2" unfolding s2_def using u1 untouched_wlr_output_commit_state untouched_trans by blast
  have "s' = s \<or> s' = s1
        \<or> (\<exists>s3. (s3 = s2 \<or> output_layout_add_auto out s2 = Inr s3)
               \<and> s' = update_output_manager_config (do_call View_position_all s3))"
    using assms unfolding handle_new_output_def Let_def out_def[symmetric] s1_def[symmetric] s2_def[symmetric]
    by (auto split: if_splits sum.splits)
  then show ?thesis
  proof (elim disjE exE conjE)
    fix s3 assume s': "s' = update_output_manager_config (do_call View_position_all s3)" and "s3 = s2"
    have "inhibition_untouched s3 s'" unfolding s' by (simp add: inhibition_untouched_def update_output_manager_config_def)
    then show ?thesis using u2 \<open>s3 = s2\<close> untouched_trans by blast
  next
    fix s3 assume s': "s' = update_output_manager_config (do_call View_position_all s3)"
      and a: "output_layout_add_auto out s2 = Inr s3"
    have "inhibition_untouched s3 s'" unfolding s' by (simp add: inhibition_untouched_def update_output_manager_config_def)
    then show ?thesis using u2 untouched_output_layout_add_auto[OF a] untouched_trans by blast
  qed (use u1 in simp_all)
qed

lemma untouched_build_scene_states:
  "build_scene_states sts s = Inr (b, s') \<Longrightarrow> inhibition_untouched s s'"
proof (induction sts arbitrary: s)
  case Nil then show ?case by simp
next
  case (Cons st sts)
  from Cons.prems obtain out where out: "state_output_data st = Some out"
    by (auto split: option.splits)
  define s1 where "s1 = do_call (Wlr_scene_output_build_state (wlr_output out)) s"
  have u1: "inhibition_untouched s s1" by (simp add: s1_def inhibition_untouched_def)
  from Cons.prems out have "s' = s1 \<or> build_scene_states sts s1 = Inr (b, s')"
    by (auto simp: Let_def s1_def split: if_splits)
  then show ?case
    using u1 Cons.IH[of s1] untouched_trans by blast
qed

lemma untouched_output_config_apply:
  "output_config_apply cfg t s = Inr (b, s') \<Longrightarrow> inhibition_untouched s s'"
  unfolding output_config_apply_def Let_def
  by (auto split: option.splits if_splits sum.splits prod.splits
      dest!: untouched_build_scene_states simp: inhibition_untouched_def)

lemma untouched_handle_output_manager_apply:
  "handle_output_manager_apply cfg s = Inr s' \<Longrightarrow> inhibition_untouched s s'"
  unfolding handle_output_manager_apply_def
  by (auto split: sum.splits prod.splits dest!: untouched_output_config_apply simp: inhibition_untouched_def)

lemma untouched_handle_output_manager_test:
  "handle_output_manager_test cfg s = Inr s' \<Longrightarrow> inhibition_untouched s s'"
  unfolding handle_output_manager_test_def
  by (auto split: sum.splits prod.splits dest!: untouched_output_config_apply simp: inhibition_untouched_def)

lemma untouched_sigchld_handler: "inhibition_untouched s (sigchld_handler fd m s)"
  by (auto simp: sigchld_handler_def server_terminate_def inhibition_untouched_def)

lemma untouched_handle_idle_inhibitor_v1_new:
  "handle_idle_inhibitor_v1_new ok i s = Inr s' \<Longrightarrow> inhibitors s = Wl_list_zeroed \<Longrightarrow>
     inhibition_untouched s s'"
  by (auto simp: handle_idle_inhibitor_v1_new_def wl_list_insert_def split: if_splits)

lemma untouched_dispatch_event:
  assumes "dispatch_event x11 e s = Inr s'" "inhibitors s = Wl_list_zeroed"
  shows "inhibition_untouched s s'"
  using assms
  by (cases e)
     (auto simp: untouched_handle_signal untouched_handle_key_event untouched_sigchld_handler
        wl_list_elements_def
        intro: untouched_handle_new_output untouched_output_destroy
               untouched_handle_output_manager_apply untouched_handle_output_manager_test
               untouched_handle_idle_inhibitor_v1_new
        split: option.splits)

lemma untouched_dispatch_events:
  assumes "dispatch_events x11 es s = Inr s'" "inhibitors s = Wl_list_zeroed"
  shows "inhibition_untouched s s'"
  using assms
proof (induction es arbitrary: s)
  case Nil then show ?case by simp
next
  case (Cons e es)
  from Cons.prems(1) obtain s1 where s1: "dispatch_event x11 e s = Inr s1"
    and rest: "dispatch_events x11 es s1 = Inr s'" by (auto split: sum.splits)
  have u1: "inhibition_untouched s s1" by (rule untouched_dispatch_event[OF s1 Cons.prems(2)])
  then have "inhibitors s1 = Wl_list_zeroed"
    using Cons.prems(2) by (simp add: inhibition_untouched_def)
  from Cons.IH[OF rest this] u1 show ?case using untouched_trans by blast
qed

lemma untouched_display_loop:
  assumes "display_loop x11 bs s = Some (Inr s')" "inhibitors s = Wl_list_zeroed"
  shows "inhibition_untouched s s'"
  using assms
proof (induction bs arbitrary: s)
  case Nil then show ?case by simp
next
  case (Cons b bs)
  from Cons.prems(1) obtain s1 where s1: "dispatch_events x11 b s = Inr s1"
    by (auto split: sum.splits)
  have u1: "inhibition_untouched s s1" by (rule untouched_dispatch_events[OF s1 Cons.prems(2)])
  show ?case
  proof (cases "display_run s1")
    case True
    with Cons.prems(1) s1 have l: "display_loop x11 bs s1 = Some (Inr s')" by simp
    have "inhibitors s1 = Wl_list_zeroed"
      using u1 Cons.prems(2) by (simp add: inhibition_untouched_def)
    from Cons.IH[OF l this] u1 show ?thesis using untouched_trans by blast
  next
    case False
    with Cons.prems(1) s1 have "s' = s1" by simp
    with u1 show ?thesis by simp
  qed
qed

text \<open>
  No run of \<open>main\<close> that returns has pushed a flag to the idle notifier, whatever
  the start and the events.
\<close>

lemma main_never_pushes_inhibited:
  assumes "main env = Some (Inr (code, cs))"
  shows "Wlr_idle_notifier_v1_set_inhibited v \<notin> set cs"
proof (cases "setup_succeeds env")
  case False
  then have "cs = []"
    using assms by (auto simp: main_def setup_succeeds_def split: parse_result.splits if_splits)
  then show ?thesis by simp
next
  case True
  then obtain vt mode where o: "parse_args env = Options vt mode"
    by (cases "parse_args env") (auto simp: setup_succeeds_def)
  have m: "main env = run_client env (initial_server vt mode env)"
    by (rule main_after_setup[OF True o])
  let ?r = "spawn_primary_client (spawn env) (initial_server vt mode env)"
  have c0: "Wlr_idle_notifier_v1_set_inhibited v \<notin> set (calls (spawn_server ?r))"
    by (simp add: spawn_primary_client_def initial_server_def do_call_def)
  show ?thesis
  proof (cases "spawned ?r")
    case False
    with assms c0 show ?thesis unfolding m run_client_unfold by (simp add: Let_def)
  next
    case sp: True
    from assms obtain s' where l: "display_loop (wlr_has_x11_backend env) (loop_events env)
        (loop_start vt mode env) = Some (Inr s')"
      and cs: "cs = calls s' \<or> cs = calls s' @ [Waitpid (pid_out ?r)]"
      unfolding m run_client_unfold using sp
      by (auto simp: Let_def split: option.splits sum.splits if_splits)
    have "inhibition_untouched (loop_start vt mode env) s'"
      by (rule untouched_display_loop[OF l main_leaves_inhibitors_zeroed])
    moreover have "Wlr_idle_notifier_v1_set_inhibited v \<notin> set (calls (loop_start vt mode env))"
      using c0 by (simp add: loop_start_def)
    ultimately have "Wlr_idle_notifier_v1_set_inhibited v \<notin> set (calls s')"
      by (auto simp: inhibition_untouched_def)
    with cs show ?thesis by auto
  qed
qed

text \<open>
  Claim C8, where the code departs from it. Every set-up step succeeds and the client
  is spawned; it creates an idle inhibitor, the first live token. The handler links
  the token into \<open>server.inhibitors\<close>, which \<open>main\<close> never initialised: the write
  through the NULL \<open>next\<close> pointer ends the server, and no flag is pushed to the idle
  notifier.
\<close>

theorem first_inhibitor_aborts_server:
  "setup_succeeds inhibitor_startup
   \<and> inhibitors (loop_start True GAMEFRAME_MULTI_OUTPUT_MODE_EXTEND inhibitor_startup) =
       Wl_list_zeroed
   \<and> handle_idle_inhibitor_v1_new True 7
        (loop_start True GAMEFRAME_MULTI_OUTPUT_MODE_EXTEND inhibitor_startup) =
       Inl Null_dereference
   \<and> main inhibitor_startup = Some (Inl Null_dereference)"
  by (simp add: inhibitor_startup_def example_startup_def eval_defs)

theorem first_inhibitor_aborts_server_witness:
  "\<not> (\<exists>code cs. main inhibitor_startup = Some (Inr (code, cs)))"
  using first_inhibitor_aborts_server by simp

section \<open>Output manager\<close>

text \<open>
  \<open>handle_new_output\<close> puts the new output at the head of \<open>server->outputs\<close>: the
  list runs from the output added last to the one added first.
\<close>

lemma handle_new_output_at_head:
  assumes "handle_new_output a raw s = Inr s'" "init_render_ok a" "output_alloc_ok a"
  shows "map wlr_output (outputs s') = wlr_output raw # map wlr_output (outputs s)"
proof -
  have m: "map wlr_output (map (\<lambda>out. if wlr_output out = n then out\<lparr>enabled := v\<rparr> else out) xs)
            = map wlr_output xs" for n v xs
    by (induction xs) auto
  show ?thesis
    using assms unfolding handle_new_output_def Let_def
    by (auto simp: wlr_output_commit_state_def output_layout_add_auto_def
        update_output_manager_config_def do_call_def m
        split: if_splits option.splits sum.splits)
qed

lemma server_ABC_built:
  "dispatch_events False
     [New_output (hotplug_ok 11) output_A, New_output (hotplug_ok 12) output_B,
      New_output (hotplug_ok 13) output_C]
     nested_server =
   Inr (server_ABC
          \<lparr>calls :=
             [Wlr_output_commit_state 1 True, Wlr_output_layout_add_auto 1, View_position_all,
              Wlr_output_manager_v1_set_configuration [1],
              Wlr_output_commit_state 2 True, Wlr_output_layout_add_auto 2, View_position_all,
              Wlr_output_manager_v1_set_configuration [2, 1],
              Wlr_output_commit_state 3 True, Wlr_output_layout_add_auto 3, View_position_all,
              Wlr_output_manager_v1_set_configuration [3, 2, 1]]\<rparr>)"
  by (simp add: server_ABC_def nested_server_def output_A_def output_B_def output_C_def
      hotplug_ok_def added_def handle_new_output_def wlr_output_commit_state_def
      output_layout_add_auto_def update_output_manager_config_def do_call_def)

text \<open>
  The cases of \<open>output_destroy\<close>. It takes the output off \<open>server->outputs\<close> and
  out of the layout. If no output remains and the destroyed one was nested, it runs
  \<open>server_terminate\<close>: a server whose display is not yet destroyed asks the display
  to terminate. Otherwise, under the \<open>last\<close> mode with outputs remaining, it commits
  \<open>enabled\<close> on the head of the remaining list (the output added last among them),
  adds it to the layout when the backend accepts the commit, publishes the
  configuration and calls \<open>view_position_all\<close>; this is what happens when the
  output it promotes has a scene output, or the backend refuses the commit. In every
  other case it stops after the removal.
\<close>

lemma output_destroy_cases:
  "(remove1 output (outputs s) = [] \<and> is_nested_output x11 output \<longrightarrow>
      output_destroy x11 c output s =
        Inr (server_terminate (output_layout_remove output (s\<lparr>outputs := []\<rparr>)))
      \<and> (\<not> terminated s \<longrightarrow>
           (\<exists>s'. output_destroy x11 c output s = Inr s' \<and> \<not> display_run s' \<and> outputs s' = []
              \<and> new_calls s s' =
                   [Wlr_output_layout_remove (wlr_output output), Wl_display_terminate])))
   \<and> (output_mode s = GAMEFRAME_MULTI_OUTPUT_MODE_LAST
        \<and> remove1 output (outputs s) = prev # rest \<and> (c \<longrightarrow> scene_output prev \<noteq> None) \<longrightarrow>
        (\<exists>s'. output_destroy x11 c output s = Inr s'
           \<and> map wlr_output (outputs s') = map wlr_output (prev # rest)
           \<and> new_calls s s' =
                [Wlr_output_layout_remove (wlr_output output),
                 Wlr_output_commit_state (wlr_output prev) True]
                @ (if c then [Wlr_output_layout_add_auto (wlr_output prev)] else [])
                @ [Wlr_output_manager_v1_set_configuration (map wlr_output (prev # rest)),
                   View_position_all]
           \<and> (c \<longrightarrow> enabled (hd (outputs s')) \<and> wlr_output prev \<in> set (output_layout s'))
           \<and> (wlr_output output \<noteq> wlr_output prev \<longrightarrow>
                wlr_output output \<notin> set (output_layout s'))))
   \<and> (\<not> (remove1 output (outputs s) = [] \<and> is_nested_output x11 output)
        \<and> \<not> (output_mode s = GAMEFRAME_MULTI_OUTPUT_MODE_LAST \<and> remove1 output (outputs s) \<noteq> []) \<longrightarrow>
        output_destroy x11 c output s =
          Inr (output_layout_remove output (s\<lparr>outputs := remove1 output (outputs s)\<rparr>)))"
proof -
  have m: "map wlr_output (map (\<lambda>out. if wlr_output out = n then out\<lparr>enabled := v\<rparr> else out) xs)
            = map wlr_output xs" for n v xs
    by (induction xs) auto
  have a: "output_destroy x11 c output s =
        Inr (server_terminate (output_layout_remove output (s\<lparr>outputs := []\<rparr>)))"
    if "remove1 output (outputs s) = []" "is_nested_output x11 output"
    using that by (simp add: output_destroy_def output_layout_remove_def do_call_def)
  have a': "\<not> display_run s' \<and> outputs s' = []
      \<and> new_calls s s' = [Wlr_output_layout_remove (wlr_output output), Wl_display_terminate]"
    if "s' = server_terminate (output_layout_remove output (s\<lparr>outputs := []\<rparr>))" "\<not> terminated s"
    for s'
    using that
    by (simp add: server_terminate_def output_layout_remove_def do_call_def new_calls_def)
  have b: "\<exists>s'. output_destroy x11 c output s = Inr s'
           \<and> map wlr_output (outputs s') = map wlr_output (prev # rest)
           \<and> new_calls s s' =
                [Wlr_output_layout_remove (wlr_output output),
                 Wlr_output_commit_state (wlr_output prev) True]
                @ (if c then [Wlr_output_layout_add_auto (wlr_output prev)] else [])
                @ [Wlr_output_manager_v1_set_configuration (map wlr_output (prev # rest)),
                   View_position_all]
           \<and> (c \<longrightarrow> enabled (hd (outputs s')) \<and> wlr_output prev \<in> set (output_layout s'))
           \<and> (wlr_output output \<noteq> wlr_output prev \<longrightarrow>
                wlr_output output \<notin> set (output_layout s'))"
    if "output_mode s = GAMEFRAME_MULTI_OUTPUT_MODE_LAST"
      "remove1 output (outputs s) = prev # rest" "c \<longrightarrow> scene_output prev \<noteq> None"
    using that
    by (cases c)
       (auto simp: output_destroy_def output_enable_def output_layout_add_auto_def
          wlr_output_commit_state_def update_output_manager_config_def
          output_layout_remove_def do_call_def new_calls_def m Let_def)
  have d: "output_destroy x11 c output s =
          Inr (output_layout_remove output (s\<lparr>outputs := remove1 output (outputs s)\<rparr>))"
    if "\<not> (remove1 output (outputs s) = [] \<and> is_nested_output x11 output)"
       "\<not> (output_mode s = GAMEFRAME_MULTI_OUTPUT_MODE_LAST \<and> remove1 output (outputs s) \<noteq> [])"
    using that by (auto simp: output_destroy_def output_layout_remove_def do_call_def)
  show ?thesis using a a' b d by blast
qed

lemma output_destroy_promotes_B:
  "(\<exists>s'. output_destroy False True (added output_C 13) server_ABC = Inr s'
      \<and> map wlr_output (outputs s') = [2, 1]
      \<and> enabled (hd (outputs s')) \<and> 2 \<in> set (output_layout s') \<and> 3 \<notin> set (output_layout s')
      \<and> new_calls server_ABC s' =
           [Wlr_output_layout_remove 3, Wlr_output_commit_state 2 True,
            Wlr_output_layout_add_auto 2, Wlr_output_manager_v1_set_configuration [2, 1],
            View_position_all])
   \<and> (\<exists>s'. output_destroy False True (added output_A 11)
              (server_ABC\<lparr>outputs := [added output_A 11]\<rparr>) = Inr s'
      \<and> \<not> display_run s'
      \<and> new_calls (server_ABC\<lparr>outputs := [added output_A 11]\<rparr>) s' =
           [Wlr_output_layout_remove 1, Wl_display_terminate])"
proof -
  let ?C = "added output_C 13" and ?B = "added output_B 12" and ?A = "added output_A 11"
  have r: "remove1 ?C (outputs server_ABC) = ?B # [?A]"
    "output_mode server_ABC = GAMEFRAME_MULTI_OUTPUT_MODE_LAST" "scene_output ?B \<noteq> None"
    "wlr_output ?C = 3" "wlr_output ?B = 2" "wlr_output ?A = 1"
    by (simp_all add: server_ABC_def nested_server_def added_def output_A_def output_B_def
        output_C_def)
  note p = output_destroy_cases[of "?C" server_ABC False True "?B" "[?A]"]
  from p[THEN conjunct2, THEN conjunct1] r
  have 1: "\<exists>s'. output_destroy False True ?C server_ABC = Inr s'
      \<and> map wlr_output (outputs s') = [2, 1]
      \<and> enabled (hd (outputs s')) \<and> 2 \<in> set (output_layout s') \<and> 3 \<notin> set (output_layout s')
      \<and> new_calls server_ABC s' =
           [Wlr_output_layout_remove 3, Wlr_output_commit_state 2 True,
            Wlr_output_layout_add_auto 2, Wlr_output_manager_v1_set_configuration [2, 1],
            View_position_all]"
    by auto
  let ?s = "server_ABC\<lparr>outputs := [?A]\<rparr>"
  have q: "remove1 ?A (outputs ?s) = []" "is_nested_output False ?A" "\<not> terminated ?s"
    by (simp_all add: server_ABC_def nested_server_def added_def output_A_def
        is_nested_output_def)
  note p2 = output_destroy_cases[of "?A" "?s" False True]
  from p2[THEN conjunct1] q r(6)
  have 2: "\<exists>s'. output_destroy False True ?A ?s = Inr s' \<and> \<not> display_run s'
      \<and> new_calls ?s s' = [Wlr_output_layout_remove 1, Wl_display_terminate]"
    by auto
  show ?thesis using 1 2 by blast
qed

text \<open>
  The server after A, B and C were announced in this order and
  \<open>wlr_scene_output_create\<close> failed for B: \<open>handle_new_output\<close> had put B on
  \<open>server->outputs\<close> before it returned.
\<close>

lemma server_ABC_no_scene_B_built:
  "dispatch_events False
     [New_output (hotplug_ok 11) output_A, New_output hotplug_no_scene_output output_B,
      New_output (hotplug_ok 13) output_C]
     nested_server =
   Inr (server_ABC_no_scene_B
          \<lparr>calls :=
             [Wlr_output_commit_state 1 True, Wlr_output_layout_add_auto 1, View_position_all,
              Wlr_output_manager_v1_set_configuration [1],
              Wlr_output_commit_state 3 True, Wlr_output_layout_add_auto 3, View_position_all,
              Wlr_output_manager_v1_set_configuration [3, 2, 1]]\<rparr>)"
  by (simp add: server_ABC_no_scene_B_def nested_server_def output_A_def output_B_def
      output_C_def hotplug_ok_def hotplug_no_scene_output_def added_def handle_new_output_def
      wlr_output_commit_state_def output_layout_add_auto_def update_output_manager_config_def
      do_call_def)

text \<open>
  Claim C4, where the code departs from it. Under the \<open>last\<close> mode the outputs A, B
  and C are announced in this order, and for B the scene output cannot be created.
  Then C is destroyed and the backend accepts the commit that enables B, the output
  added last among those that remain: \<open>output_destroy\<close> runs \<open>output_enable\<close>
  on B, whose \<open>output_layout_add_auto\<close> asserts that B has a scene output. The
  process aborts; B is not put in the layout and \<open>view_position_all\<close> is not
  called.
\<close>

theorem promoted_output_without_scene_output_aborts:
  "output_mode server_ABC_no_scene_B = GAMEFRAME_MULTI_OUTPUT_MODE_LAST
   \<and> remove1 (added output_C 13) (outputs server_ABC_no_scene_B) =
       [output_B, added output_A 11]
   \<and> scene_output output_B = None
   \<and> output_destroy False True (added output_C 13) server_ABC_no_scene_B =
       Inl Assertion_failed
   \<and> dispatch_events False
        [New_output (hotplug_ok 11) output_A, New_output hotplug_no_scene_output output_B,
         New_output (hotplug_ok 13) output_C, Output_destroyed True 3]
        nested_server =
       Inl Assertion_failed"
  by (simp add: server_ABC_no_scene_B_def nested_server_def output_A_def output_B_def
      output_C_def hotplug_ok_def hotplug_no_scene_output_def added_def handle_new_output_def
      output_destroy_def output_enable_def output_layout_remove_def is_nested_output_def
      wlr_output_commit_state_def output_layout_add_auto_def update_output_manager_config_def
      do_call_def)

theorem promoted_output_without_scene_output_aborts_witness:
  "\<not> (\<exists>s'. output_destroy False True (added output_C 13) server_ABC_no_scene_B = Inr s')"
  using promoted_output_without_scene_output_aborts by simp

text \<open>
  \<open>output_config_apply\<close> in test mode: the result is whether the states were built
  and passed the swapchain test, the backend is not asked to commit, and the server is
  left as it was but for the calls that build and test.
\<close>

lemma output_config_apply_test_only:
  "\<exists>s'. output_config_apply config True s =
           Inr (build_state config \<noteq> None \<and> prepare_ok config, s')
        \<and> Wlr_backend_commit \<notin> set (new_calls s s')
        \<and> s' = s\<lparr>calls := calls s'\<rparr>"
  by (auto simp: output_config_apply_def new_calls_def do_call_def split: option.splits)

text \<open>
  Both handlers send \<open>succeeded\<close> whatever \<open>output_config_apply\<close> returned, and
  never \<open>failed\<close>.
\<close>

lemma output_manager_handlers_always_report_success:
  "handle_output_manager_apply config s = Inr s' \<Longrightarrow>
     \<exists>ok s1. output_config_apply config False s = Inr (ok, s1)
       \<and> s' = do_call Wlr_output_configuration_v1_send_succeeded s1"
  "handle_output_manager_test config s = Inr s' \<Longrightarrow>
     \<exists>ok s1. output_config_apply config True s = Inr (ok, s1)
       \<and> s' = do_call Wlr_output_configuration_v1_send_succeeded s1"
  by (auto simp: handle_output_manager_apply_def handle_output_manager_test_def
      split: sum.splits prod.splits)

text \<open>
  Claim C5, where the code departs from it. For a configuration whose commit the
  backend refuses, \<open>output_config_apply\<close> returns false and
  \<open>handle_output_manager_apply\<close> still reports success to the requesting client.
\<close>

theorem apply_reports_success_after_refused_commit:
  "output_config_apply refused_configuration False nested_server =
     Inr (False,
          nested_server
            \<lparr>calls := [Wlr_output_swapchain_manager_prepare, Wlr_scene_output_build_state 1,
                       Wlr_backend_commit]\<rparr>)
   \<and> handle_output_manager_apply refused_configuration nested_server =
     Inr (nested_server
            \<lparr>calls := [Wlr_output_swapchain_manager_prepare, Wlr_scene_output_build_state 1,
                       Wlr_backend_commit, Wlr_output_configuration_v1_send_succeeded]\<rparr>)"
  by (simp add: handle_output_manager_apply_def output_config_apply_def
      refused_configuration_def nested_server_def added_def output_A_def do_call_def)

theorem apply_reports_success_after_refused_commit_witness:
  "\<exists>s'. handle_output_manager_apply refused_configuration nested_server = Inr s'
      \<and> Wlr_backend_commit \<in> set (calls s')
      \<and> last (calls s') = Wlr_output_configuration_v1_send_succeeded
      \<and> Wlr_output_configuration_v1_send_failed \<notin> set (calls s')"
  using apply_reports_success_after_refused_commit by simp

section \<open>Views: transient windows\<close>



text \<open>
  The xwayland \<open>is_transient_for\<close> tests the parent's type against
  \<open>GAMEFRAME_XDG_SHELL_VIEW\<close>: for a parent that is an xwayland view it returns false
  before it looks at any surface.
\<close>

lemma xwayland_is_transient_for_xwayland_parent:
  "view_type parent = GAMEFRAME_XWAYLAND_VIEW \<Longrightarrow>
     xwayland_is_transient_for heap child parent = Some False"
  by (simp add: xwayland_is_transient_for_def)

text \<open>
  Claim C6, where the code departs from it. For two xwayland views of which the second
  has the first as the parent of its surface, the parent is in the parent chain of the
  child (the walk along the \<open>parent\<close> fields finds it), and \<open>is_transient_for\<close>
  returns false.
\<close>

theorem xwayland_transient_child_not_recognised:
  "xwayland_surface_parent x11_heap 40 = Some 30
   \<and> native x11_dialog_view = Some 40 \<and> native x11_window_view = Some 30
   \<and> parent_walk (xwayland_surface_parent x11_heap) (native x11_dialog_view)
        (native x11_window_view) = Some True
   \<and> xwayland_is_transient_for x11_heap x11_dialog_view x11_window_view = Some False"
  by (simp add: x11_heap_def x11_dialog_view_def x11_window_view_def
      xwayland_is_transient_for_def parent_walk.simps)

theorem xwayland_transient_child_not_recognised_witness:
  "view_is_transient_for x11_heap (Some x11_dialog_view) x11_window_view = Some (Inr False)"
  using xwayland_transient_child_not_recognised
  by (simp add: view_is_transient_for_def x11_dialog_view_def)

section \<open>Seat: focus\<close>










text \<open>
  The button handler does not touch the focus; a motion of the pointer onto the dialog
  moves it there.
\<close>

lemma handle_cursor_button_keeps_focus:
  "focused_surface (handle_cursor_button seat) = focused_surface seat"
  by (simp add: handle_cursor_button_def seat_call_def)

lemma motion_onto_dialog_moves_focus:
  "map_option (map_sum id (seat_get_focus dialog_heap))
     (handle_cursor_motion dialog_heap (Some dialog_view) seat_on_window) =
   Some (Inr (Some dialog_view))"
  by (simp add: handle_cursor_motion_def press_cursor_button_def view_is_transient_for_def
      xdg_shell_is_transient_for_def seat_get_focus_def seat_set_focus_def seat_call_def
      seat_on_window_def dialog_heap_def dialog_view_def window_view_def
      WLR_BUTTON_PRESSED_def parent_walk.simps Let_def)

text \<open>
  For xwayland views the test never holds for an xwayland parent (lemma
  \<open>xwayland_is_transient_for_xwayland_parent\<close>): with the focus on an X11 dialog, a
  press on the X11 window that owns it moves the focus to the window.
\<close>

lemma press_on_x11_owner_moves_focus:
  "seat_get_focus x11_heap seat_on_x11_dialog = Some x11_dialog_view
   \<and> press_cursor_button x11_heap (Some x11_window_view) WLR_BUTTON_PRESSED seat_on_x11_dialog =
       Some (Inr (seat_set_focus seat_on_x11_dialog x11_window_view))"
  by (simp add: press_cursor_button_def view_is_transient_for_def
      xwayland_is_transient_for_def seat_get_focus_def seat_set_focus_def seat_call_def
      seat_on_x11_dialog_def x11_heap_def x11_dialog_view_def x11_window_view_def Let_def)

section \<open>Seat: capabilities\<close>

lemmas capability_bits =
  WL_SEAT_CAPABILITY_KEYBOARD_def WL_SEAT_CAPABILITY_POINTER_def WL_SEAT_CAPABILITY_TOUCH_def

text \<open>
  \<open>update_capabilities\<close> stores the union of the capabilities of the non-empty
  lists, clears the cursor image when there is no pointer and sets the default image
  when there is one.
\<close>

lemma update_capabilities_derived: "capabilities_derived (update_capabilities seat)"
  by (simp add: capabilities_derived_def capabilities_of_def update_capabilities_def
      capability_bits Let_def)

lemma update_capabilities_lists:
  "keyboard_groups (update_capabilities seat) = keyboard_groups seat"
  "pointers (update_capabilities seat) = pointers seat"
  "touch (update_capabilities seat) = touch seat"
  "destroy_listeners (update_capabilities seat) = destroy_listeners seat"
  by (simp_all add: update_capabilities_def Let_def)

lemma map_input_device_to_output_fields:
  "keyboard_groups (map_input_device_to_output names dev seat) = keyboard_groups seat"
  "pointers (map_input_device_to_output names dev seat) = pointers seat"
  "touch (map_input_device_to_output names dev seat) = touch seat"
  "destroy_listeners (map_input_device_to_output names dev seat) = destroy_listeners seat"
  "capabilities (map_input_device_to_output names dev seat) = capabilities seat"
  "cursor_image (map_input_device_to_output names dev seat) = cursor_image seat"
  by (simp_all add: map_input_device_to_output_def seat_call_def split: option.splits)

lemma map_input_device_to_output_derived:
  "capabilities_derived (map_input_device_to_output names dev seat) = capabilities_derived seat"
  by (simp add: capabilities_derived_def capabilities_of_def map_input_device_to_output_fields)

text \<open>
  Every handler of a device being added or removed leaves the seat with the derived
  capabilities and cursor image, if it found it so.
\<close>

lemma handle_new_input_derived:
  assumes "capabilities_derived seat"
  shows "capabilities_derived (handle_new_input a alloc_ok names dev seat)"
  using assms
  by (auto simp: handle_new_input_def handle_new_keyboard_def handle_new_pointer_def
      handle_new_touch_def map_input_device_to_output_derived update_capabilities_derived
      split: wlr_input_device_type.splits)

lemma run_destroy_listener_derived:
  "capabilities_derived (run_destroy_listener d seat l)"
  by (cases l)
     (simp_all add: run_destroy_listener_def handle_pointer_destroy_def handle_touch_destroy_def
        update_capabilities_derived)

lemma input_device_destroy_derived:
  assumes "capabilities_derived seat"
  shows "capabilities_derived (input_device_destroy dev seat)"
proof -
  have "capabilities_derived (foldl (run_destroy_listener d) s ls)"
    if "capabilities_derived s" for d s ls
    using that by (induction ls arbitrary: s) (simp_all add: run_destroy_listener_derived)
  then show ?thesis using assms by (simp add: input_device_destroy_def)
qed

lemma seat_create_derived: "capabilities_derived seat_create"
  by (simp add: seat_create_def update_capabilities_derived)

text \<open>
  A pointer that is added and then removed leaves the device lists, the capabilities
  and the cursor image as they were, whatever other devices the seat has. The device
  is new: the seat has no listener on it yet.
\<close>

lemma pointer_add_remove_restores:
  assumes "capabilities_derived seat" and "device dev \<notin> fst ` set (destroy_listeners seat)"
  shows "(let seat' = input_device_destroy dev (handle_new_pointer True names dev seat)
          in keyboard_groups seat' = keyboard_groups seat \<and> pointers seat' = pointers seat
             \<and> touch seat' = touch seat \<and> capabilities seat' = capabilities seat
             \<and> cursor_image seat' = cursor_image seat)"
proof -
  let ?s1 = "handle_new_pointer True names dev seat"
  have l1: "destroy_listeners ?s1 = destroy_listeners seat @ [(device dev, Pointer_destroy)]"
    by (simp add: handle_new_pointer_def update_capabilities_lists
        map_input_device_to_output_fields seat_call_def)
  have f: "filter (\<lambda>(d, l). d = device dev) (destroy_listeners seat) = []"
    using assms(2) by (force simp: filter_empty_conv)
  have d: "input_device_destroy dev ?s1 = handle_pointer_destroy (device dev) ?s1"
    by (simp add: input_device_destroy_def l1 f run_destroy_listener_def)
  let ?s2 = "handle_pointer_destroy (device dev) ?s1"
  have lists: "keyboard_groups ?s2 = keyboard_groups seat" "pointers ?s2 = pointers seat"
    "touch ?s2 = touch seat"
    by (simp_all add: handle_pointer_destroy_def handle_new_pointer_def update_capabilities_lists
        map_input_device_to_output_fields seat_call_def)
  have "capabilities_derived ?s2"
    by (simp add: handle_pointer_destroy_def update_capabilities_derived)
  with assms(1) lists have "capabilities ?s2 = capabilities seat"
    "cursor_image ?s2 = cursor_image seat"
    by (simp_all add: capabilities_derived_def capabilities_of_def)
  with lists d show ?thesis by (simp add: Let_def)
qed

text \<open>
  The keyboard handler adds no destroy listener, and the destroy signal of a device
  without listeners leaves the seat as it is.
\<close>

lemma handle_new_keyboard_adds_no_destroy_listener:
  "destroy_listeners (handle_new_keyboard a names dev seat) = destroy_listeners seat"
  by (simp add: handle_new_keyboard_def gf_keyboard_group_add_def update_capabilities_lists
      map_input_device_to_output_fields Let_def)

lemma input_device_destroy_without_listener:
  assumes "device dev \<notin> fst ` set (destroy_listeners seat)"
  shows "input_device_destroy dev seat = seat"
proof -
  have "filter (\<lambda>(d, l). d = device dev) (destroy_listeners seat) = []"
    using assms by (force simp: filter_empty_conv)
  then show ?thesis by (simp add: input_device_destroy_def)
qed

text \<open>
  Claim C7, where the code departs from it. A keyboard arrives at the seat as
  \<open>seat_create\<close> leaves it: a group is made for it and the seat gains the keyboard
  capability. The keyboard is then removed: the seat has no listener on the destroy
  signal of a keyboard, the group stays, and the seat still has the keyboard
  capability it did not have before the keyboard was added.
\<close>

theorem keyboard_capability_survives_removal:
  "capabilities seat_create = 0
   \<and> capabilities (handle_new_input keyboard_ok True [] keyboard_device seat_create) =
       WL_SEAT_CAPABILITY_KEYBOARD
   \<and> input_device_destroy keyboard_device
        (handle_new_input keyboard_ok True [] keyboard_device seat_create) =
       handle_new_input keyboard_ok True [] keyboard_device seat_create
   \<and> capabilities
        (input_device_destroy keyboard_device
           (handle_new_input keyboard_ok True [] keyboard_device seat_create)) = 2"
  by (simp add: seat_create_def handle_new_input_def handle_new_keyboard_def
      gf_keyboard_group_add_def update_capabilities_def map_input_device_to_output_def
      input_device_destroy_def keyboard_ok_def keyboard_device_def capability_bits Let_def)

theorem keyboard_capability_survives_removal_witness:
  "capabilities
     (input_device_destroy keyboard_device
        (handle_new_input keyboard_ok True [] keyboard_device seat_create))
   \<noteq> capabilities seat_create"
  using keyboard_capability_survives_removal by (simp add: capability_bits)

text \<open>
  The same for a pointer restores the seat: the pointer handler does add its destroy
  listener.
\<close>

lemma pointer_capability_restored_example:
  "capabilities (input_device_destroy pointer_device
      (handle_new_input keyboard_ok True [] pointer_device seat_create)) =
   capabilities seat_create"
  by (simp add: seat_create_def handle_new_input_def handle_new_pointer_def
      handle_pointer_destroy_def run_destroy_listener_def seat_call_def
      update_capabilities_def map_input_device_to_output_def
      input_device_destroy_def pointer_device_def capability_bits Let_def)

end
